theory Spec2Isabelle
  imports Complex_Main "HOL-Library.Multiset" "HOL-Library.Sublist" "HOL-Library.Log_Nat"
begin

section \<open>The schema of the migration\<close>

text \<open>
  The tables of the migration in the README (\<^verbatim>\<open>CREATE TABLE profiles / books / reviews\<close>).
  A \<^verbatim>\<open>uuid\<close> is its 128-bit value, a \<^verbatim>\<open>timestamptz\<close> a number of microseconds; every
  column is \<^verbatim>\<open>NOT NULL\<close> or has a default, so no field is optional. The fields \<^verbatim>\<open>id\<close>,
  \<^verbatim>\<open>created_at\<close> and \<^verbatim>\<open>updated_at\<close> carry the initial of their table.
\<close>

type_synonym uuid = nat
type_synonym timestamptz = int

record profile =
  p_id :: uuid
  name :: string
  email :: string
  p_created_at :: timestamptz

record book =
  b_id :: uuid
  title :: string
  author :: string
  description :: string
  genre :: string
  published_year :: int
  added_by :: uuid
  b_created_at :: timestamptz
  b_updated_at :: timestamptz

record review =
  r_id :: uuid
  book_id :: uuid
  user_id :: uuid
  rating :: int
  review_text :: string
  r_created_at :: timestamptz
  r_updated_at :: timestamptz

text \<open>The store: each table is the sequence of its rows, in the order the table holds them.\<close>

record db =
  tbl_profiles :: "profile list"
  tbl_books :: "book list"
  tbl_reviews :: "review list"

text \<open>
  What a statement can be answered with besides its result: the SQLSTATE of the constraint
  or policy that refused it (22003, 23503, 23505, 23514, 42501), and the range error of the
  REST layer (PGRST103, status 416).
\<close>

datatype pg_error =
    NumericValueOutOfRange
  | ForeignKeyViolation
  | UniqueViolation
  | CheckViolation
  | InsufficientPrivilege
  | RangeNotSatisfiable

text \<open>A value of the column type \<^verbatim>\<open>integer\<close> (four bytes, signed).\<close>

definition pg_integer :: "int \<Rightarrow> bool" where
  "pg_integer x = (- 2147483648 \<le> x \<and> x \<le> 2147483647)"

subsection \<open>Constraints\<close>

text \<open>\<^verbatim>\<open>rating integer NOT NULL CHECK (rating >= 1 AND rating <= 5)\<close>\<close>

definition reviews_rating_check :: "review \<Rightarrow> bool" where
  "reviews_rating_check r = (rating r \<ge> 1 \<and> rating r \<le> 5)"

text \<open>\<^verbatim>\<open>id uuid PRIMARY KEY\<close> and \<^verbatim>\<open>UNIQUE(book_id, user_id)\<close>: would the row collide with one of
  the others?\<close>

definition reviews_unique_violated :: "review \<Rightarrow> review list \<Rightarrow> bool" where
  "reviews_unique_violated r others =
     (list_ex (\<lambda>x. r_id x = r_id r) others \<or>
      list_ex (\<lambda>x. book_id x = book_id r \<and> user_id x = user_id r) others)"

text \<open>\<^verbatim>\<open>book_id uuid REFERENCES books(id)\<close>, \<^verbatim>\<open>user_id uuid REFERENCES profiles(id)\<close>\<close>

definition reviews_fk_ok :: "db \<Rightarrow> review \<Rightarrow> bool" where
  "reviews_fk_ok d r =
     (list_ex (\<lambda>b. b_id b = book_id r) (tbl_books d) \<and>
      list_ex (\<lambda>p. p_id p = user_id r) (tbl_profiles d))"

text \<open>\<^verbatim>\<open>id uuid PRIMARY KEY\<close> of books\<close>

definition books_unique_violated :: "book \<Rightarrow> book list \<Rightarrow> bool" where
  "books_unique_violated b others = list_ex (\<lambda>x. b_id x = b_id b) others"

text \<open>\<^verbatim>\<open>added_by uuid REFERENCES profiles(id)\<close>\<close>

definition books_fk_ok :: "db \<Rightarrow> book \<Rightarrow> bool" where
  "books_fk_ok d b = list_ex (\<lambda>p. p_id p = added_by b) (tbl_profiles d)"

text \<open>\<^verbatim>\<open>id uuid PRIMARY KEY\<close> and \<^verbatim>\<open>email text UNIQUE\<close> of profiles\<close>

definition profiles_unique_violated :: "profile \<Rightarrow> profile list \<Rightarrow> bool" where
  "profiles_unique_violated p others =
     (list_ex (\<lambda>x. p_id x = p_id p) others \<or> list_ex (\<lambda>x. email x = email p) others)"

subsection \<open>Row level security policies\<close>

text \<open>
  \<open>auth.uid()\<close> is \<open>Some u\<close> for a request of the role \<^verbatim>\<open>authenticated\<close> signed in as \<open>u\<close>,
  and \<open>None\<close> for an anonymous one. Every policy for writing is \<^verbatim>\<open>TO authenticated\<close>, so
  an anonymous request has none and is denied; with \<open>None\<close> the comparison below is false
  as well. A \<^verbatim>\<open>USING\<close> expression selects the existing rows the statement may touch (the
  others are passed over without an error); a \<^verbatim>\<open>WITH CHECK\<close> expression must hold of a
  row the statement writes, or the statement fails.
\<close>

text \<open>"Users can update own profile": \<^verbatim>\<open>USING (auth.uid() = id) WITH CHECK (auth.uid() = id)\<close>\<close>

definition profiles_policy :: "uuid option \<Rightarrow> profile \<Rightarrow> bool" where
  "profiles_policy uid p = (uid = Some (p_id p))"

text \<open>"Authenticated users can create books": \<^verbatim>\<open>WITH CHECK (auth.uid() = added_by)\<close>;
  "Users can update own books": \<^verbatim>\<open>USING (auth.uid() = added_by) WITH CHECK (auth.uid() = added_by)\<close>;
  "Users can delete own books": \<^verbatim>\<open>USING (auth.uid() = added_by)\<close>\<close>

definition books_policy :: "uuid option \<Rightarrow> book \<Rightarrow> bool" where
  "books_policy uid b = (uid = Some (added_by b))"

text \<open>"Authenticated users can create reviews": \<^verbatim>\<open>WITH CHECK (auth.uid() = user_id)\<close>;
  "Users can update own reviews", "Users can delete own reviews": the same expression\<close>

definition reviews_policy :: "uuid option \<Rightarrow> review \<Rightarrow> bool" where
  "reviews_policy uid r = (uid = Some (user_id r))"

subsection \<open>Statements\<close>

text \<open>
  \<^verbatim>\<open>INSERT INTO reviews (book_id, user_id, rating, review_text)\<close>. The columns \<^verbatim>\<open>id\<close>,
  \<^verbatim>\<open>created_at\<close> and \<^verbatim>\<open>updated_at\<close> take their defaults \<^verbatim>\<open>gen_random_uuid()\<close> and \<^verbatim>\<open>now()\<close>,
  given here as \<open>new_id\<close> and \<open>now\<close>. The value is read into the column type first; then the
  policy, the check constraint, the unique indexes and the foreign keys are tried in this
  order, and the first that fails answers.
\<close>

definition insert_review ::
  "uuid option \<Rightarrow> uuid \<Rightarrow> timestamptz \<Rightarrow> uuid \<Rightarrow> uuid \<Rightarrow> int \<Rightarrow> string \<Rightarrow> db \<Rightarrow> pg_error + db" where
  "insert_review uid new_id now bid usr rat txt d =
     (let r = \<lparr>r_id = new_id, book_id = bid, user_id = usr, rating = rat, review_text = txt,
                r_created_at = now, r_updated_at = now\<rparr>
      in if \<not> pg_integer rat then Inl NumericValueOutOfRange
         else if \<not> reviews_policy uid r then Inl InsufficientPrivilege
         else if \<not> reviews_rating_check r then Inl CheckViolation
         else if reviews_unique_violated r (tbl_reviews d) then Inl UniqueViolation
         else if \<not> reviews_fk_ok d r then Inl ForeignKeyViolation
         else Inr (d\<lparr>tbl_reviews := tbl_reviews d @ [r]\<rparr>))"

text \<open>
  \<^verbatim>\<open>UPDATE reviews SET ... WHERE id = rid\<close>. The \<^verbatim>\<open>SET\<close> clause is any function of the old
  row. The row with this id is touched only if the \<^verbatim>\<open>USING\<close> expression holds of it (the
  primary key makes it the only one), and without such a row the statement is done, with
  no error; the trigger \<^verbatim>\<open>set_updated_at_reviews\<close> then stamps \<^verbatim>\<open>updated_at\<close>, and the new row
  meets the column types, \<^verbatim>\<open>WITH CHECK\<close> and the constraints.
\<close>

definition update_review ::
  "uuid option \<Rightarrow> timestamptz \<Rightarrow> uuid \<Rightarrow> (review \<Rightarrow> review) \<Rightarrow> db \<Rightarrow> pg_error + db" where
  "update_review uid now rid upd d =
     (case find (\<lambda>r. r_id r = rid \<and> reviews_policy uid r) (tbl_reviews d) of
        None \<Rightarrow> Inr d
      | Some old \<Rightarrow>
          (let r = (upd old)\<lparr>r_updated_at := now\<rparr>;
               others = filter (\<lambda>x. r_id x \<noteq> rid) (tbl_reviews d)
           in if \<not> pg_integer (rating r) then Inl NumericValueOutOfRange
              else if \<not> reviews_policy uid r then Inl InsufficientPrivilege
              else if \<not> reviews_rating_check r then Inl CheckViolation
              else if reviews_unique_violated r others then Inl UniqueViolation
              else if \<not> reviews_fk_ok d r then Inl ForeignKeyViolation
              else Inr (d\<lparr>tbl_reviews := map (\<lambda>x. if r_id x = rid then r else x) (tbl_reviews d)\<rparr>)))"

text \<open>\<^verbatim>\<open>DELETE FROM reviews WHERE id = rid\<close>: the rows the \<^verbatim>\<open>USING\<close> expression selects go.\<close>

definition delete_review :: "uuid option \<Rightarrow> uuid \<Rightarrow> db \<Rightarrow> pg_error + db" where
  "delete_review uid rid d =
     Inr (d\<lparr>tbl_reviews := filter (\<lambda>r. \<not> (r_id r = rid \<and> reviews_policy uid r)) (tbl_reviews d)\<rparr>)"

text \<open>\<^verbatim>\<open>INSERT INTO books (title, author, description, genre, published_year, added_by)\<close>\<close>

definition insert_book ::
  "uuid option \<Rightarrow> uuid \<Rightarrow> timestamptz \<Rightarrow> string \<Rightarrow> string \<Rightarrow> string \<Rightarrow> string \<Rightarrow> int \<Rightarrow> uuid \<Rightarrow> db
     \<Rightarrow> pg_error + db" where
  "insert_book uid new_id now ttl aut des gen yr owner d =
     (let b = \<lparr>b_id = new_id, title = ttl, author = aut, description = des, genre = gen,
                published_year = yr, added_by = owner, b_created_at = now, b_updated_at = now\<rparr>
      in if \<not> pg_integer yr then Inl NumericValueOutOfRange
         else if \<not> books_policy uid b then Inl InsufficientPrivilege
         else if books_unique_violated b (tbl_books d) then Inl UniqueViolation
         else if \<not> books_fk_ok d b then Inl ForeignKeyViolation
         else Inr (d\<lparr>tbl_books := tbl_books d @ [b]\<rparr>))"

text \<open>
  \<^verbatim>\<open>UPDATE books SET ... WHERE id = bid\<close>, with the trigger \<^verbatim>\<open>set_updated_at_books\<close>. A new id
  would leave the reviews of the old one without their book (\<^verbatim>\<open>REFERENCES books(id)\<close> has
  no \<^verbatim>\<open>ON UPDATE\<close> action).
\<close>

definition update_book ::
  "uuid option \<Rightarrow> timestamptz \<Rightarrow> uuid \<Rightarrow> (book \<Rightarrow> book) \<Rightarrow> db \<Rightarrow> pg_error + db" where
  "update_book uid now bid upd d =
     (case find (\<lambda>b. b_id b = bid \<and> books_policy uid b) (tbl_books d) of
        None \<Rightarrow> Inr d
      | Some old \<Rightarrow>
          (let b = (upd old)\<lparr>b_updated_at := now\<rparr>;
               others = filter (\<lambda>x. b_id x \<noteq> bid) (tbl_books d)
           in if \<not> pg_integer (published_year b) then Inl NumericValueOutOfRange
              else if \<not> books_policy uid b then Inl InsufficientPrivilege
              else if books_unique_violated b others then Inl UniqueViolation
              else if \<not> books_fk_ok d b
                      \<or> (b_id b \<noteq> bid \<and> list_ex (\<lambda>r. book_id r = bid) (tbl_reviews d))
                then Inl ForeignKeyViolation
              else Inr (d\<lparr>tbl_books := map (\<lambda>x. if b_id x = bid then b else x) (tbl_books d)\<rparr>)))"

text \<open>
  \<^verbatim>\<open>DELETE FROM books WHERE id = bid\<close>: the rows the \<^verbatim>\<open>USING\<close> expression selects go, and
  with a book its reviews (\<^verbatim>\<open>book_id uuid REFERENCES books(id) ON DELETE CASCADE\<close>).
\<close>

definition delete_book :: "uuid option \<Rightarrow> uuid \<Rightarrow> db \<Rightarrow> pg_error + db" where
  "delete_book uid bid d =
     (if list_ex (\<lambda>b. b_id b = bid \<and> books_policy uid b) (tbl_books d)
      then Inr (d\<lparr>tbl_books := filter (\<lambda>b. \<not> (b_id b = bid \<and> books_policy uid b)) (tbl_books d),
                  tbl_reviews := filter (\<lambda>r. book_id r \<noteq> bid) (tbl_reviews d)\<rparr>)
      else Inr d)"

text \<open>
  \<^verbatim>\<open>UPDATE profiles SET ... WHERE id = pid\<close>. No trigger is declared on profiles. A new id
  would leave the books and reviews of the old one without their profile. (The reference
  of the id to \<^verbatim>\<open>auth.users\<close> lies outside this store; \<^verbatim>\<open>WITH CHECK\<close> refuses a new id before
  it is looked at.)
\<close>

definition update_profile ::
  "uuid option \<Rightarrow> uuid \<Rightarrow> (profile \<Rightarrow> profile) \<Rightarrow> db \<Rightarrow> pg_error + db" where
  "update_profile uid pid upd d =
     (case find (\<lambda>p. p_id p = pid \<and> profiles_policy uid p) (tbl_profiles d) of
        None \<Rightarrow> Inr d
      | Some old \<Rightarrow>
          (let p = upd old;
               others = filter (\<lambda>x. p_id x \<noteq> pid) (tbl_profiles d)
           in if \<not> profiles_policy uid p then Inl InsufficientPrivilege
              else if profiles_unique_violated p others then Inl UniqueViolation
              else if p_id p \<noteq> pid \<and> (list_ex (\<lambda>b. added_by b = pid) (tbl_books d)
                                         \<or> list_ex (\<lambda>r. user_id r = pid) (tbl_reviews d))
                then Inl ForeignKeyViolation
              else Inr (d\<lparr>tbl_profiles := map (\<lambda>x. if p_id x = pid then p else x) (tbl_profiles d)\<rparr>)))"

text \<open>Two \<^verbatim>\<open>SET\<close> clauses for a profile: a new name, and a new email.\<close>

definition set_name :: "string \<Rightarrow> profile \<Rightarrow> profile" where
  "set_name n p = p\<lparr>name := n\<rparr>"

definition set_email :: "string \<Rightarrow> profile \<Rightarrow> profile" where
  "set_email e p = p\<lparr>email := e\<rparr>"

section \<open>BooksPage: the listing\<close>

subsection \<open>The operator \<^verbatim>\<open>ilike\<close>\<close>

text \<open>
  The texts of this development are ASCII texts: a \<open>char\<close> is one byte, and in ASCII one
  byte is one character. Outside ASCII the operators of Postgres work on characters of
  several bytes (\<^verbatim>\<open>_\<close> stands for one such character, and \<^verbatim>\<open>ILIKE\<close> folds letters by the
  locale of the database); that is not modelled, and what is proved of the text filter is
  proved of ASCII texts.
\<close>

definition ascii :: "string \<Rightarrow> bool" where
  "ascii s = list_all (\<lambda>c. (of_char c :: nat) < 128) s"

text \<open>
  The pattern language of \<^verbatim>\<open>LIKE\<close>: \<^verbatim>\<open>%\<close> stands for any run of characters, \<^verbatim>\<open>_\<close> for any one
  character, a backslash makes the next character stand for itself, every other character
  for itself; the pattern must cover the whole string. A pattern that ends in a lone
  backslash is an error in Postgres; it matches nothing here (the patterns of this page
  end in \<^verbatim>\<open>%\<close>).
\<close>

fun like_match :: "string \<Rightarrow> string \<Rightarrow> bool" where
  "like_match [] s = (s = [])"
| "like_match (c # p) s =
     (if c = CHR ''%'' then
        (like_match p s \<or> (case s of [] \<Rightarrow> False | _ # s' \<Rightarrow> like_match (c # p) s'))
      else if c = CHR 0x5C then
        (case p of
           [] \<Rightarrow> False
         | e # p' \<Rightarrow> (case s of [] \<Rightarrow> False | x # s' \<Rightarrow> x = e \<and> like_match p' s'))
      else if c = CHR ''_'' then
        (case s of [] \<Rightarrow> False | _ # s' \<Rightarrow> like_match p s')
      else
        (case s of [] \<Rightarrow> False | x # s' \<Rightarrow> x = c \<and> like_match p s'))"

text \<open>\<^verbatim>\<open>ILIKE\<close> matches the pattern and the string folded to lower case: in ASCII, the
  letters A to Z.\<close>

definition lower_char :: "char \<Rightarrow> char" where
  "lower_char c =
     (let n = (of_char c :: nat) in if 65 \<le> n \<and> n \<le> 90 then char_of (n + 32) else c)"

definition lower :: "string \<Rightarrow> string" where
  "lower s = map lower_char s"

definition ilike :: "string \<Rightarrow> string \<Rightarrow> bool" where
  "ilike s pat = like_match (lower pat) (lower s)"

subsection \<open>A select with a range and an exact count\<close>

text \<open>
  \<^verbatim>\<open>.select(..., { count: 'exact' })\<close> with \<^verbatim>\<open>.range(from, to)\<close> asks for \<^verbatim>\<open>offset = from\<close> and
  \<^verbatim>\<open>limit = to - from + 1\<close>. The request is answered by the REST service in front of the
  database (PostgREST), which is no part of the repository; \<open>select_range\<close> is a model of
  that service, not code of the source.

  Within the rows the answer is that of the \<^verbatim>\<open>OFFSET\<close> and \<^verbatim>\<open>LIMIT\<close> of the SQL: the rows at
  the positions \<open>from\<close> to \<open>to\<close> (as many as exist) and the count of all rows of the query. A
  negative offset or limit is refused. What the service answers to an offset beyond the
  count is not fixed by anything in the repository, and is a parameter of the model:
  \<open>EmptySlice\<close>, no rows and the count, as the specification words it; or \<open>RangeError\<close>,
  the answer the documentation of PostgREST gives for a request with an exact count
  (status 416, code PGRST103, "Requested range not satisfiable").
\<close>

datatype range_answer = EmptySlice | RangeError

definition select_range ::
  "range_answer \<Rightarrow> int \<Rightarrow> int \<Rightarrow> 'a list \<Rightarrow> pg_error + ('a list \<times> nat)" where
  "select_range beyond from to rows =
     (if from < 0 \<or> to < from then Inl RangeNotSatisfiable
      else if int (length rows) < from \<and> beyond = RangeError then Inl RangeNotSatisfiable
      else Inr (take (nat (to - from + 1)) (drop (nat from) rows), length rows))"

subsection \<open>\<^verbatim>\<open>fetchBooks\<close>\<close>

definition BOOKS_PER_PAGE :: int where
  "BOOKS_PER_PAGE = 5"

datatype sort_by = newest | oldest | year

record books_page =
  books :: "book list"
  loading :: bool
  currentPage :: int
  totalBooks :: nat
  searchQuery :: string
  selectedGenre :: string
  sortBy :: sort_by

text \<open>\<^verbatim>\<open>query.or(`title.ilike.%${searchQuery}%,author.ilike.%${searchQuery}%`)\<close>: the query
  text goes into the two patterns as it is, and is taken to reach the operator as it is.\<close>

definition search_filter :: "string \<Rightarrow> book \<Rightarrow> bool" where
  "search_filter q b =
     (ilike (title b) (CHR ''%'' # q @ [CHR ''%''])
      \<or> ilike (author b) (CHR ''%'' # q @ [CHR ''%'']))"

text \<open>A character that stands for itself in a pattern and in the filter of the request:
  none of \<^verbatim>\<open>%\<close>, \<^verbatim>\<open>_\<close> and the backslash of the pattern language, and none of the
  characters the filter syntax of the REST request reserves (\<^verbatim>\<open>*\<close>, the comma, the
  parentheses, the double quote), which \<open>search_filter\<close> does not model.\<close>

definition plain_char :: "char \<Rightarrow> bool" where
  "plain_char c =
     (c \<noteq> CHR ''%'' \<and> c \<noteq> CHR ''_'' \<and> c \<noteq> CHR 0x5C \<and> c \<noteq> CHR ''*'' \<and> c \<noteq> CHR '',''
      \<and> c \<noteq> CHR ''('' \<and> c \<noteq> CHR '')'' \<and> c \<noteq> CHR 0x22)"

text \<open>
  \<^verbatim>\<open>query.order(column, { ascending })\<close> with the one column the page names. Postgres leaves
  the order of rows with equal keys open: they come as the plan of the query happens to
  yield them (in the order of the heap, or of an index read forwards or backwards), which
  neither the request nor the repository fixes. That order is a parameter of the model: a
  \<open>plan\<close> ranks the rows, and rows of equal key come by ascending rank (rows of equal key
  and equal rank as the table holds them).
\<close>

type_synonym 'a plan = "'a \<Rightarrow> int"

definition order_books :: "book plan \<Rightarrow> sort_by \<Rightarrow> book list \<Rightarrow> book list" where
  "order_books plan s rows =
     (if s = newest then sort_key (\<lambda>b. - b_created_at b) (sort_key plan rows)
      else if s = oldest then sort_key (\<lambda>b. b_created_at b) (sort_key plan rows)
      else sort_key (\<lambda>b. - published_year b) (sort_key plan rows))"

text \<open>Two plans: one that yields the rows as the table holds them, and one that yields the
  books with the greater id first.\<close>

definition heap_order :: "'a plan" where
  "heap_order x = 0"

definition greater_id_first :: "book plan" where
  "greater_id_first b = - int (b_id b)"

text \<open>The column each sort key orders by, negated where the order is descending.\<close>

definition sort_column :: "sort_by \<Rightarrow> book \<Rightarrow> int" where
  "sort_column s b =
     (if s = newest then - b_created_at b
      else if s = oldest then b_created_at b
      else - published_year b)"

text \<open>The query of \<^verbatim>\<open>fetchBooks\<close> before its range: the filters, then the order. (The
  embedded columns \<^verbatim>\<open>profiles:added_by(name, email)\<close> are left out of the rows.)\<close>

definition books_query :: "book plan \<Rightarrow> db \<Rightarrow> books_page \<Rightarrow> book list" where
  "books_query plan d st =
     (let q0 = tbl_books d;
          q1 = (if searchQuery st \<noteq> [] then filter (search_filter (searchQuery st)) q0 else q0);
          q2 = (if selectedGenre st \<noteq> [] then filter (\<lambda>b. genre b = selectedGenre st) q1 else q1)
      in order_books plan (sortBy st) q2)"

text \<open>The rows the two filters of \<^verbatim>\<open>fetchBooks\<close> let through, in the order of the table.\<close>

definition filtered_books :: "db \<Rightarrow> books_page \<Rightarrow> book list" where
  "filtered_books d st =
     filter (\<lambda>b. (searchQuery st = [] \<or> search_filter (searchQuery st) b)
                 \<and> (selectedGenre st = [] \<or> genre b = selectedGenre st)) (tbl_books d)"

text \<open>An error is thrown to the \<^verbatim>\<open>catch\<close>, which logs it: the books and the count on the page
  stay as they were. The page number is a whole number, far below \<open>2 ^ 53\<close>, so that
  \<^verbatim>\<open>(currentPage - 1) * BOOKS_PER_PAGE\<close> is exact.\<close>

definition fetchBooks :: "range_answer \<Rightarrow> book plan \<Rightarrow> db \<Rightarrow> books_page \<Rightarrow> books_page" where
  "fetchBooks beyond plan d st =
     (let from = (currentPage st - 1) * BOOKS_PER_PAGE;
          to = from + BOOKS_PER_PAGE - 1
      in case select_range beyond from to (books_query plan d st) of
           Inl e \<Rightarrow> st\<lparr>loading := False\<rparr>
         | Inr (data, cnt) \<Rightarrow> st\<lparr>books := data, totalBooks := cnt, loading := False\<rparr>)"

text \<open>The page as it is mounted (the initial values of its \<^verbatim>\<open>useState\<close> cells).\<close>

definition first_page :: books_page where
  "first_page = \<lparr>books = [], loading = True, currentPage = 1, totalBooks = 0,
     searchQuery = [], selectedGenre = [], sortBy = newest\<rparr>"

subsection \<open>The controls of the listing\<close>

text \<open>
  \<^verbatim>\<open>useEffect(() => { fetchBooks(); }, [currentPage, searchQuery, selectedGenre, sortBy])\<close>:
  after a control has set its cells, \<^verbatim>\<open>fetchBooks\<close> runs if one of the four has changed.
\<close>

definition refetch ::
  "range_answer \<Rightarrow> book plan \<Rightarrow> db \<Rightarrow> books_page \<Rightarrow> books_page \<Rightarrow> books_page" where
  "refetch beyond plan d old new =
     (if currentPage new = currentPage old \<and> searchQuery new = searchQuery old
         \<and> selectedGenre new = selectedGenre old \<and> sortBy new = sortBy old
      then new else fetchBooks beyond plan d new)"

text \<open>The search box, \<^verbatim>\<open>onChange={(e) => setSearchQuery(e.target.value)}\<close>: the page number
  stays.\<close>

definition onSearchChange ::
  "range_answer \<Rightarrow> book plan \<Rightarrow> string \<Rightarrow> db \<Rightarrow> books_page \<Rightarrow> books_page" where
  "onSearchChange beyond plan q d st = refetch beyond plan d st (st\<lparr>searchQuery := q\<rparr>)"

text \<open>The genre and the sort key, \<^verbatim>\<open>setSelectedGenre(e.target.value); setCurrentPage(1)\<close> and
  \<^verbatim>\<open>setSortBy(e.target.value); setCurrentPage(1)\<close>, and the search button,
  \<^verbatim>\<open>handleSearch\<close> with its \<^verbatim>\<open>setCurrentPage(1)\<close>.\<close>

definition onGenreChange ::
  "range_answer \<Rightarrow> book plan \<Rightarrow> string \<Rightarrow> db \<Rightarrow> books_page \<Rightarrow> books_page" where
  "onGenreChange beyond plan g d st =
     refetch beyond plan d st (st\<lparr>selectedGenre := g, currentPage := 1\<rparr>)"

definition onSortChange ::
  "range_answer \<Rightarrow> book plan \<Rightarrow> sort_by \<Rightarrow> db \<Rightarrow> books_page \<Rightarrow> books_page" where
  "onSortChange beyond plan s d st =
     refetch beyond plan d st (st\<lparr>sortBy := s, currentPage := 1\<rparr>)"

definition handleSearch :: "range_answer \<Rightarrow> book plan \<Rightarrow> db \<Rightarrow> books_page \<Rightarrow> books_page" where
  "handleSearch beyond plan d st = refetch beyond plan d st (st\<lparr>currentPage := 1\<rparr>)"

text \<open>The numbered buttons of the pagination, \<^verbatim>\<open>onClick={() => setCurrentPage(page)}\<close>. They
  are rendered for the pages 1 to \<^verbatim>\<open>Math.ceil(totalBooks / BOOKS_PER_PAGE)\<close>, and only where
  the page is loaded, shows a book and has more than one page; there is no other click.\<close>

definition totalPages :: "books_page \<Rightarrow> int" where
  "totalPages st = (int (totalBooks st) + BOOKS_PER_PAGE - 1) div BOOKS_PER_PAGE"

definition onPageClick ::
  "range_answer \<Rightarrow> book plan \<Rightarrow> int \<Rightarrow> db \<Rightarrow> books_page \<Rightarrow> books_page" where
  "onPageClick beyond plan p d st =
     (if \<not> loading st \<and> books st \<noteq> [] \<and> 1 < totalPages st \<and> 1 \<le> p \<and> p \<le> totalPages st
      then refetch beyond plan d st (st\<lparr>currentPage := p\<rparr>) else st)"

section \<open>BookDetailsPage\<close>

text \<open>
  The state of the page: the route parameter \<^verbatim>\<open>id\<close>, the signed-in user (\<^verbatim>\<open>user?.id\<close>, and the
  \<open>auth.uid()\<close> of the requests the page sends), and the \<^verbatim>\<open>useState\<close> cells. \<^verbatim>\<open>error\<close> holds what
  the failed request answered instead of its message, and \<open>location\<close> where \<^verbatim>\<open>navigate\<close> went.
\<close>

datatype route = Home | Login | BookRoute uuid

datatype js_error = StoreError pg_error | TypeError

record details_page =
  id_param :: uuid
  user :: "uuid option"
  book :: "book option"
  reviews :: "review list"
  details_loading :: bool
  rating_state :: int
  reviewText :: string
  submitting :: bool
  editingReview :: "uuid option"
  error_state :: "js_error option"
  location :: "route option"

text \<open>\<^verbatim>\<open>.from('books').select(...).eq('id', id).maybeSingle()\<close>\<close>

definition fetchBookDetails :: "db \<Rightarrow> details_page \<Rightarrow> details_page" where
  "fetchBookDetails d st =
     st\<lparr>book := find (\<lambda>b. b_id b = id_param st) (tbl_books d), details_loading := False\<rparr>"

text \<open>\<^verbatim>\<open>.from('reviews').select(...).eq('book_id', id).order('created_at', { ascending: false })\<close>:
  again one column, and reviews of equal creation time come as the \<open>plan\<close> yields them.\<close>

definition fetchReviews :: "review plan \<Rightarrow> db \<Rightarrow> details_page \<Rightarrow> details_page" where
  "fetchReviews plan d st =
     st\<lparr>reviews := sort_key (\<lambda>r. - r_created_at r)
                       (sort_key plan (filter (\<lambda>r. book_id r = id_param st) (tbl_reviews d)))\<rparr>"

text \<open>The update of the edit branch: \<^verbatim>\<open>.update({ rating, review_text: reviewText })\<close>\<close>

definition review_changes :: "int \<Rightarrow> string \<Rightarrow> review \<Rightarrow> review" where
  "review_changes rat txt r = r\<lparr>rating := rat, review_text := txt\<rparr>"

definition handleSubmitReview ::
  "review plan \<Rightarrow> uuid \<Rightarrow> timestamptz \<Rightarrow> db \<Rightarrow> details_page \<Rightarrow> details_page \<times> db" where
  "handleSubmitReview plan new_id now d st =
     (case user st of
        None \<Rightarrow> (st\<lparr>location := Some Login\<rparr>, d)
      | Some u \<Rightarrow>
          (case (case editingReview st of
                   Some rid \<Rightarrow>
                     update_review (user st) now rid
                       (review_changes (rating_state st) (reviewText st)) d
                 | None \<Rightarrow>
                     insert_review (user st) new_id now (id_param st) u
                       (rating_state st) (reviewText st) d) of
             Inl e \<Rightarrow> (st\<lparr>error_state := Some (StoreError e), submitting := False\<rparr>, d)
           | Inr d' \<Rightarrow>
               (fetchReviews plan d'
                  (st\<lparr>error_state := None, rating_state := 5, reviewText := [],
                      editingReview := None, submitting := False\<rparr>), d')))"

definition handleEditReview :: "review \<Rightarrow> details_page \<Rightarrow> details_page" where
  "handleEditReview r st =
     st\<lparr>editingReview := Some (r_id r), rating_state := rating r, reviewText := review_text r\<rparr>"

text \<open>\<open>confirmed\<close> is the answer to the \<^verbatim>\<open>confirm\<close> dialogue. An error is logged only.\<close>

definition handleDeleteReview ::
  "review plan \<Rightarrow> bool \<Rightarrow> uuid \<Rightarrow> db \<Rightarrow> details_page \<Rightarrow> details_page \<times> db" where
  "handleDeleteReview plan confirmed reviewId d st =
     (if \<not> confirmed then (st, d)
      else case delete_review (user st) reviewId d of
             Inl e \<Rightarrow> (st, d)
           | Inr d' \<Rightarrow> (fetchReviews plan d' st, d'))"

definition handleDeleteBook :: "bool \<Rightarrow> db \<Rightarrow> details_page \<Rightarrow> details_page \<times> db" where
  "handleDeleteBook confirmed d st =
     (if \<not> confirmed then (st, d)
      else case delete_book (user st) (id_param st) d of
             Inl e \<Rightarrow> (st, d)
           | Inr d' \<Rightarrow> (st\<lparr>location := Some Home\<rparr>, d'))"

text \<open>\<^verbatim>\<open>reviews.find((r) => r.user_id === user?.id)\<close>: with no user the right side is
  \<^verbatim>\<open>undefined\<close>, which no \<^verbatim>\<open>user_id\<close> equals.\<close>

definition userReview :: "details_page \<Rightarrow> review option" where
  "userReview st = find (\<lambda>r. Some (user_id r) = user st) (reviews st)"

subsection \<open>The numbers of the page\<close>

text \<open>
  A JavaScript number is an IEEE 754 double. The finite doubles are rationals, and the
  numbers of the page are kept as such: the result of an addition or a division is the
  exact result rounded to the nearest double, at a tie to the one with the even
  significand. \<open>round_double\<close> rounds to 53 significant bits at any exponent, which is the
  rounding of binary64 wherever the magnitude lies between \<open>2 powi - 1022\<close> and
  \<open>2 powi 1024\<close>, as every number of this page does (a rating is a value of the column
  type, and an array has fewer than \<open>2 ^ 32\<close> elements).
\<close>

text \<open>The \<open>e\<close> with \<open>2 powi e \<le> \<bar>x\<bar> < 2 powi (e + 1)\<close>, for \<open>x \<noteq> 0\<close>.\<close>

definition exponent :: "rat \<Rightarrow> int" where
  "exponent x =
     (let (a, b) = quotient_of \<bar>x\<bar>; e0 = bitlen a - bitlen b
      in if \<bar>x\<bar> < 2 powi e0 then e0 - 1 else e0)"

definition round_half_even :: "rat \<Rightarrow> int" where
  "round_half_even y =
     (let f = \<lfloor>y\<rfloor>; r = y - of_int f
      in if r < 1 / 2 then f else if 1 / 2 < r then f + 1 else if even f then f else f + 1)"

definition round_double :: "rat \<Rightarrow> rat" where
  "round_double x =
     (if x = 0 then 0
      else let u = 2 powi (exponent x - 52) in of_int (round_half_even (x / u)) * u)"

text \<open>An integer of the store as a number, \<^verbatim>\<open>a + b\<close> and \<^verbatim>\<open>a / b\<close>.\<close>

definition js_number :: "int \<Rightarrow> rat" where
  "js_number k = round_double (of_int k)"

definition js_add :: "rat \<Rightarrow> rat \<Rightarrow> rat" where
  "js_add a b = round_double (a + b)"

definition js_div :: "rat \<Rightarrow> rat \<Rightarrow> rat" where
  "js_div a b = round_double (a / b)"

text \<open>\<^verbatim>\<open>Math.round(x)\<close>: the integer nearest to \<open>x\<close>, the greater one at a tie.\<close>

definition Math_round :: "rat \<Rightarrow> int" where
  "Math_round x = \<lfloor>x + 1 / 2\<rfloor>"

text \<open>\<^verbatim>\<open>x.toFixed(1)\<close>, as the number of tenths its text shows: the \<open>n\<close> with \<open>n / 10\<close> nearest to
  \<open>x\<close>, the one greater in magnitude at a tie.\<close>

definition toFixed_1 :: "rat \<Rightarrow> int" where
  "toFixed_1 x = (if x < 0 then - \<lfloor>10 * (- x) + 1 / 2\<rfloor> else \<lfloor>10 * x + 1 / 2\<rfloor>)"

text \<open>\<^verbatim>\<open>reviews.length > 0 ? reviews.reduce((sum, r) => sum + r.rating, 0) / reviews.length : 0\<close>\<close>

definition averageRating :: "review list \<Rightarrow> rat" where
  "averageRating rs =
     (if length rs > 0
      then js_div (foldl (\<lambda>sum r. js_add sum (js_number (rating r))) 0 rs)
             (js_number (int (length rs)))
      else 0)"

text \<open>The stars of the five that are filled: \<^verbatim>\<open>[...Array(5)].map((_, i) => i < Math.round(averageRating) ...)\<close>\<close>

definition stars :: "rat \<Rightarrow> nat" where
  "stars avg = length (filter (\<lambda>i. int i < Math_round avg) [0, 1, 2, 3, 4])"

text \<open>The arithmetic mean of the ratings, in exact arithmetic.\<close>

definition mean_rating :: "review list \<Rightarrow> rat" where
  "mean_rating rs = of_int (sum_list (map rating rs)) / of_nat (length rs)"

subsection \<open>What the page renders\<close>

text \<open>
  The spinner while loading, "Book not found" without a book, else the details, of which
  these are kept: the filled stars and the text of the average
  (\<^verbatim>\<open>averageRating.toFixed(1)\<close>, in tenths), and the conditional blocks: the edit and delete
  buttons of the book (\<^verbatim>\<open>user && book.added_by === user.id\<close>), the review form
  (\<^verbatim>\<open>user && !userReview\<close>), and for each review whether its edit and delete buttons show
  (\<^verbatim>\<open>user && review.user_id === user.id\<close>).
\<close>

record details_view =
  stars_shown :: nat
  average_shown :: int
  owner_actions :: bool
  review_form :: bool
  review_actions :: "bool list"

datatype view = Spinner | BookNotFound | Details details_view

definition render :: "details_page \<Rightarrow> view" where
  "render st =
     (if details_loading st then Spinner
      else case book st of
             None \<Rightarrow> BookNotFound
           | Some b \<Rightarrow>
               Details \<lparr>stars_shown = stars (averageRating (reviews st)),
                        average_shown = toFixed_1 (averageRating (reviews st)),
                        owner_actions = (user st \<noteq> None \<and> Some (added_by b) = user st),
                        review_form = (user st \<noteq> None \<and> userReview st = None),
                        review_actions =
                          map (\<lambda>r. user st \<noteq> None \<and> Some (user_id r) = user st) (reviews st)\<rparr>)"

section \<open>BookFormPage\<close>

record form_data =
  f_title :: string
  f_author :: string
  f_description :: string
  f_genre :: string
  f_published_year :: int

record form_page =
  form_id :: "uuid option"
  form_user :: "uuid option"
  formData :: form_data
  form_loading :: bool
  form_error :: "js_error option"
  form_location :: "route option"

text \<open>
  The constraints the inputs declare: \<^verbatim>\<open>required\<close> on each, and on the year
  \<^verbatim>\<open>type="number" min="1000" max={new Date().getFullYear()}\<close>. The browser submits the form,
  and so calls \<^verbatim>\<open>handleSubmit\<close>, only when they hold.
\<close>

definition published_year_input_valid :: "int \<Rightarrow> int \<Rightarrow> bool" where
  "published_year_input_valid current_year y = (1000 \<le> y \<and> y \<le> current_year)"

definition form_valid :: "int \<Rightarrow> form_data \<Rightarrow> bool" where
  "form_valid current_year fd =
     (f_title fd \<noteq> [] \<and> f_author fd \<noteq> [] \<and> f_description fd \<noteq> [] \<and> f_genre fd \<noteq> []
      \<and> published_year_input_valid current_year (f_published_year fd))"

text \<open>\<^verbatim>\<open>.update(formData)\<close>: the five columns of the form.\<close>

definition apply_formData :: "form_data \<Rightarrow> book \<Rightarrow> book" where
  "apply_formData fd b =
     b\<lparr>title := f_title fd, author := f_author fd, description := f_description fd,
       genre := f_genre fd, published_year := f_published_year fd\<rparr>"

text \<open>\<^verbatim>\<open>isEdit = !!id\<close>. In the insert branch \<^verbatim>\<open>user!.id\<close> throws without a user, inside the
  \<^verbatim>\<open>try\<close>.\<close>

definition handleSubmit :: "uuid \<Rightarrow> timestamptz \<Rightarrow> db \<Rightarrow> form_page \<Rightarrow> form_page \<times> db" where
  "handleSubmit new_id now d st =
     (let st1 = st\<lparr>form_error := None, form_loading := True\<rparr>;
          fd = formData st
      in case form_id st of
           Some bid \<Rightarrow>
             (case update_book (form_user st) now bid (apply_formData fd) d of
                Inl e \<Rightarrow> (st1\<lparr>form_error := Some (StoreError e), form_loading := False\<rparr>, d)
              | Inr d' \<Rightarrow> (st1\<lparr>form_location := Some (BookRoute bid)\<rparr>, d'))
         | None \<Rightarrow>
             (case form_user st of
                None \<Rightarrow> (st1\<lparr>form_error := Some TypeError, form_loading := False\<rparr>, d)
              | Some u \<Rightarrow>
                  (case insert_book (form_user st) new_id now (f_title fd) (f_author fd)
                          (f_description fd) (f_genre fd) (f_published_year fd) u d of
                     Inl e \<Rightarrow> (st1\<lparr>form_error := Some (StoreError e), form_loading := False\<rparr>, d)
                   | Inr d' \<Rightarrow> (st1\<lparr>form_location := Some (BookRoute new_id)\<rparr>, d'))))"

text \<open>Pressing the submit button: the browser checks the inputs first.\<close>

definition submit_form ::
  "int \<Rightarrow> uuid \<Rightarrow> timestamptz \<Rightarrow> db \<Rightarrow> form_page \<Rightarrow> form_page \<times> db" where
  "submit_form current_year new_id now d st =
     (if form_valid current_year (formData st) then handleSubmit new_id now d st else (st, d))"

section \<open>A small library\<close>

text \<open>Two profiles, two books of the same creation time, and one review; the concrete
  store of the examples below.\<close>

definition ada :: profile where
  "ada = \<lparr>p_id = 1, name = ''Ada'', email = ''ada@x.com'', p_created_at = 100\<rparr>"

definition bob :: profile where
  "bob = \<lparr>p_id = 2, name = ''Bob'', email = ''bob@x.com'', p_created_at = 200\<rparr>"

definition hobbit :: book where
  "hobbit = \<lparr>b_id = 10, title = ''The Hobbit'', author = ''J.R.R. Tolkien'',
     description = ''There and back again'', genre = ''Fantasy'', published_year = 1937,
     added_by = 1, b_created_at = 300, b_updated_at = 300\<rparr>"

definition dune :: book where
  "dune = \<lparr>b_id = 11, title = ''Dune'', author = ''Frank Herbert'',
     description = ''Arrakis'', genre = ''Science Fiction'', published_year = 1965,
     added_by = 2, b_created_at = 300, b_updated_at = 300\<rparr>"

definition ada_on_hobbit :: review where
  "ada_on_hobbit = \<lparr>r_id = 20, book_id = 10, user_id = 1, rating = 5,
     review_text = ''A classic'', r_created_at = 400, r_updated_at = 400\<rparr>"

definition library :: db where
  "library = \<lparr>tbl_profiles = [ada, bob], tbl_books = [hobbit, dune],
     tbl_reviews = [ada_on_hobbit]\<rparr>"

definition hobbit_form :: form_data where
  "hobbit_form = \<lparr>f_title = ''The Hobbit, or There and Back Again'',
     f_author = ''J.R.R. Tolkien'', f_description = ''A journey to the Lonely Mountain'',
     f_genre = ''Fantasy'', f_published_year = 1937\<rparr>"

text \<open>A store of twelve books, the \<open>n\<close>-th created at time \<open>n\<close>, all of the year 2000.\<close>

definition volume :: "nat \<Rightarrow> book" where
  "volume n = \<lparr>b_id = n, title = ''Volume'', author = ''Anon'', description = [],
     genre = ''Fiction'', published_year = 2000, added_by = 1, b_created_at = int n,
     b_updated_at = int n\<rparr>"

definition twelve :: db where
  "twelve = \<lparr>tbl_profiles = [ada], tbl_books = map volume [1, 2, 3, 4, 5, 6, 7, 8, 9, 10, 11, 12],
     tbl_reviews = []\<rparr>"

text \<open>The listing of the twelve books, newest first, on its third page.\<close>

definition third_page :: books_page where
  "third_page = \<lparr>books = [volume 2, volume 1], loading = False, currentPage = 3,
     totalBooks = 12, searchQuery = [], selectedGenre = [], sortBy = newest\<rparr>"

text \<open>The details page of the Hobbit as Ada sees it once the book and its reviews are
  fetched, and the form page of a new book with a year before 1000.\<close>

definition ada_reads_hobbit :: details_page where
  "ada_reads_hobbit = \<lparr>id_param = 10, user = Some 1, book = Some hobbit,
     reviews = [ada_on_hobbit], details_loading = False, rating_state = 5, reviewText = [],
     submitting = False, editingReview = None, error_state = None, location = None\<rparr>"

definition beowulf_form :: form_page where
  "beowulf_form = \<lparr>form_id = None, form_user = Some 1,
     formData = \<lparr>f_title = ''Beowulf'', f_author = ''Anon'', f_description = ''Grendel'',
                  f_genre = ''Poetry'', f_published_year = 975\<rparr>,
     form_loading = False, form_error = None, form_location = None\<rparr>"

text \<open>A review with a given rating.\<close>

definition rated :: "int \<Rightarrow> review" where
  "rated n = \<lparr>r_id = 0, book_id = 0, user_id = 0, rating = n, review_text = [],
     r_created_at = 0, r_updated_at = 0\<rparr>"

section \<open>Properties\<close>


lemmas library_defs = ada_def bob_def hobbit_def dune_def ada_on_hobbit_def library_def

subsection \<open>The rating of a review\<close>

text \<open>
  C3. Where nothing else stands in the way of the insert (the request is signed in as the
  author it names, the new id is fresh, the author has no review of the book yet, and the
  book and the profile exist), the insert of a review with rating \<open>rat\<close> is answered as
  follows. With \<open>1 \<le> rat \<le> 5\<close> the review is created: the store afterwards is the store
  before with one more row of reviews, which has the new id, the book, the author, the
  rating \<open>rat\<close>, the text and the time of the request; books, profiles and the other
  reviews are as before. With any other rating the insert is refused and nothing is stored:
  by the check of the column where the rating is a value of its type \<^verbatim>\<open>integer\<close> (so for 0
  and for 6), by the type otherwise. Hence the insert succeeds if and only if
  \<open>1 \<le> rat \<le> 5\<close>; and a rating outside 1 to 5 is refused whoever sends it and whatever the
  store holds.
\<close>

theorem review_rating_bounds:
  assumes fresh: "\<not> list_ex (\<lambda>x. r_id x = new_id) (tbl_reviews d)"
    and first: "\<not> list_ex (\<lambda>x. book_id x = bid \<and> user_id x = usr) (tbl_reviews d)"
    and book: "list_ex (\<lambda>b. b_id b = bid) (tbl_books d)"
    and prof: "list_ex (\<lambda>p. p_id p = usr) (tbl_profiles d)"
  shows "insert_review (Some usr) new_id now bid usr rat body d =
           (if 1 \<le> rat \<and> rat \<le> 5
            then Inr (d\<lparr>tbl_reviews := tbl_reviews d @
                       [\<lparr>r_id = new_id, book_id = bid, user_id = usr, rating = rat,
                         review_text = body, r_created_at = now, r_updated_at = now\<rparr>]\<rparr>)
            else if pg_integer rat then Inl CheckViolation
            else Inl NumericValueOutOfRange)
       \<and> ((\<exists>d'. insert_review (Some usr) new_id now bid usr rat body d = Inr d')
            \<longleftrightarrow> (1 \<le> rat \<and> rat \<le> 5))
       \<and> insert_review (Some usr) new_id now bid usr 0 body d = Inl CheckViolation
       \<and> insert_review (Some usr) new_id now bid usr 6 body d = Inl CheckViolation
       \<and> (\<not> (1 \<le> rat \<and> rat \<le> 5)
            \<longrightarrow> (\<forall>uid i b u t s. isl (insert_review uid i now b u rat t s)))"
proof -
  have ins: "insert_review (Some usr) new_id now bid usr x body d =
           (if 1 \<le> x \<and> x \<le> 5
            then Inr (d\<lparr>tbl_reviews := tbl_reviews d @
                       [\<lparr>r_id = new_id, book_id = bid, user_id = usr, rating = x,
                         review_text = body, r_created_at = now, r_updated_at = now\<rparr>]\<rparr>)
            else if pg_integer x then Inl CheckViolation
            else Inl NumericValueOutOfRange)" for x
    using assms
    by (auto simp: insert_review_def Let_def pg_integer_def reviews_policy_def
        reviews_rating_check_def reviews_unique_violated_def reviews_fk_ok_def)
  have refused: "\<not> (1 \<le> rat \<and> rat \<le> 5)
            \<longrightarrow> (\<forall>uid i b u t s. isl (insert_review uid i now b u rat t s))"
    by (auto simp: insert_review_def Let_def reviews_rating_check_def)
  have iff: "(\<exists>d'. insert_review (Some usr) new_id now bid usr rat body d = Inr d')
            \<longleftrightarrow> (1 \<le> rat \<and> rat \<le> 5)"
    unfolding ins [of rat] by simp
  have zero: "insert_review (Some usr) new_id now bid usr 0 body d = Inl CheckViolation"
    and six: "insert_review (Some usr) new_id now bid usr 6 body d = Inl CheckViolation"
    unfolding ins by (simp_all add: pg_integer_def)
  from ins [of rat] iff zero six refused show ?thesis by blast
qed

theorem review_rating_bounds_witness:
  "insert_review (Some 2) 21 500 10 2 4 ''Fine'' library =
     Inr \<lparr>tbl_profiles = [ada, bob], tbl_books = [hobbit, dune],
          tbl_reviews = [ada_on_hobbit,
            \<lparr>r_id = 21, book_id = 10, user_id = 2, rating = 4, review_text = ''Fine'',
              r_created_at = 500, r_updated_at = 500\<rparr>]\<rparr>
   \<and> insert_review (Some 2) 21 500 10 2 0 ''Fine'' library = Inl CheckViolation
   \<and> insert_review (Some 2) 21 500 10 2 6 ''Fine'' library = Inl CheckViolation
   \<and> insert_review (Some 2) 21 500 10 2 4294967296 ''Fine'' library
       = Inl NumericValueOutOfRange"
  using review_rating_bounds [where new_id = 21 and d = library and bid = 10 and usr = 2
      and now = 500 and rat = 4 and body = "''Fine''"]
    review_rating_bounds [where new_id = 21 and d = library and bid = 10 and usr = 2
      and now = 500 and rat = 4294967296 and body = "''Fine''"]
  by (simp add: library_defs pg_integer_def)

subsection \<open>Rows found by their key\<close>

lemma same_key_same_row:
  assumes "distinct (map f xs)" and "B \<in> set xs" and "x \<in> set xs" and "f x = f B"
  shows "x = B"
  using assms by (meson distinct_map inj_onD)

lemma find_by_key:
  assumes "distinct (map f xs)" and "B \<in> set xs"
  shows "find (\<lambda>b. f b = f B \<and> Q b) xs = (if Q B then Some B else None)"
  using assms
proof (induction xs)
  case Nil
  then show ?case by simp
next
  case (Cons x xs)
  show ?case
  proof (cases "x = B")
    case True
    with Cons.prems show ?thesis
      by (auto simp: find_None_iff image_iff)
  next
    case False
    with Cons.prems have "f x \<noteq> f B" by (auto simp: image_iff)
    with Cons False show ?thesis by auto
  qed
qed

lemma filter_by_key:
  assumes "distinct (map f xs)" and "B \<in> set xs"
  shows "filter (\<lambda>b. \<not> (f b = f B \<and> Q b)) xs =
           (if Q B then filter (\<lambda>b. f b \<noteq> f B) xs else xs)"
proof -
  have "\<And>b. b \<in> set xs \<Longrightarrow> (\<not> (f b = f B \<and> Q b)) = (if Q B then f b \<noteq> f B else True)"
    using same_key_same_row [OF assms] by auto
  then have "filter (\<lambda>b. \<not> (f b = f B \<and> Q b)) xs =
               filter (\<lambda>b. if Q B then f b \<noteq> f B else True) xs"
    by (intro filter_cong) auto
  then show ?thesis by simp
qed

subsection \<open>Updating and deleting a book\<close>

lemma delete_book_by_id:
  assumes B: "B \<in> set (tbl_books d)"
    and pk: "distinct (map b_id (tbl_books d))"
  shows "delete_book uid (b_id B) d =
           Inr (if uid = Some (added_by B)
                then d\<lparr>tbl_books := filter (\<lambda>b. b_id b \<noteq> b_id B) (tbl_books d),
                       tbl_reviews := filter (\<lambda>r. book_id r \<noteq> b_id B) (tbl_reviews d)\<rparr>
                else d)"
proof -
  have "list_ex (\<lambda>b. b_id b = b_id B \<and> books_policy uid b) (tbl_books d) = books_policy uid B"
    using same_key_same_row [OF pk B] B by (auto simp: list_ex_iff)
  then show ?thesis
    unfolding delete_book_def filter_by_key [OF pk B]
    by (simp add: books_policy_def)
qed

lemma update_book_not_owner:
  assumes B: "B \<in> set (tbl_books d)"
    and pk: "distinct (map b_id (tbl_books d))"
    and other: "uid \<noteq> Some (added_by B)"
  shows "update_book uid now (b_id B) upd d = Inr d"
  using other unfolding update_book_def find_by_key [OF pk B]
  by (simp add: books_policy_def)

lemma update_book_owner:
  assumes B: "B \<in> set (tbl_books d)"
    and pk: "distinct (map b_id (tbl_books d))"
    and owner: "uid = Some (added_by B)"
    and yr: "pg_integer (f_published_year fd)"
    and fk: "books_fk_ok d B"
  shows "update_book uid now (b_id B) (apply_formData fd) d =
           Inr (d\<lparr>tbl_books := map (\<lambda>x. if b_id x = b_id B
                                         then (apply_formData fd B)\<lparr>b_updated_at := now\<rparr> else x)
                                  (tbl_books d)\<rparr>)"
  using owner yr fk unfolding update_book_def find_by_key [OF pk B]
  by (simp add: books_policy_def apply_formData_def Let_def books_unique_violated_def
      books_fk_ok_def list_ex_iff)

text \<open>
  C1, as the code has it. For a book \<open>B\<close> of the store (ids being unique) and any actor
  \<open>uid\<close>, signed in or not: the delete removes \<open>B\<close> and its reviews if \<open>uid\<close> is the owner
  \<open>added_by B\<close>, and otherwise leaves the store as it is; either way it is answered without
  an error, and \<^verbatim>\<open>handleDeleteBook\<close> navigates home. An update by anyone else (writing a year
  the column holds) leaves the store as it is, again without an error; the update of the
  form by the owner (the owner's profile being there) replaces the five columns of \<open>B\<close>
  and stamps \<open>updated_at\<close>.
\<close>

theorem book_owner_only:
  assumes B: "B \<in> set (tbl_books d)"
    and pk: "distinct (map b_id (tbl_books d))"
  shows "delete_book uid (b_id B) d =
           Inr (if uid = Some (added_by B)
                then d\<lparr>tbl_books := filter (\<lambda>b. b_id b \<noteq> b_id B) (tbl_books d),
                       tbl_reviews := filter (\<lambda>r. book_id r \<noteq> b_id B) (tbl_reviews d)\<rparr>
                else d)
       \<and> (user st = uid \<and> id_param st = b_id B \<longrightarrow>
            handleDeleteBook True d st =
              (st\<lparr>location := Some Home\<rparr>,
               if uid = Some (added_by B)
               then d\<lparr>tbl_books := filter (\<lambda>b. b_id b \<noteq> b_id B) (tbl_books d),
                      tbl_reviews := filter (\<lambda>r. book_id r \<noteq> b_id B) (tbl_reviews d)\<rparr>
               else d))
       \<and> (uid \<noteq> Some (added_by B) \<and> pg_integer (published_year (upd B)) \<longrightarrow>
            update_book uid now (b_id B) upd d = Inr d)
       \<and> (uid = Some (added_by B) \<and> pg_integer (f_published_year fd) \<and> books_fk_ok d B \<longrightarrow>
            update_book uid now (b_id B) (apply_formData fd) d =
              Inr (d\<lparr>tbl_books := map (\<lambda>x. if b_id x = b_id B
                                            then (apply_formData fd B)\<lparr>b_updated_at := now\<rparr> else x)
                                     (tbl_books d)\<rparr>))"
proof (intro conjI impI)
  show "delete_book uid (b_id B) d =
           Inr (if uid = Some (added_by B)
                then d\<lparr>tbl_books := filter (\<lambda>b. b_id b \<noteq> b_id B) (tbl_books d),
                       tbl_reviews := filter (\<lambda>r. book_id r \<noteq> b_id B) (tbl_reviews d)\<rparr>
                else d)"
    by (rule delete_book_by_id [OF B pk])
next
  assume "user st = uid \<and> id_param st = b_id B"
  with delete_book_by_id [OF B pk, of uid]
  show "handleDeleteBook True d st =
              (st\<lparr>location := Some Home\<rparr>,
               if uid = Some (added_by B)
               then d\<lparr>tbl_books := filter (\<lambda>b. b_id b \<noteq> b_id B) (tbl_books d),
                      tbl_reviews := filter (\<lambda>r. book_id r \<noteq> b_id B) (tbl_reviews d)\<rparr>
               else d)"
    by (simp add: handleDeleteBook_def)
next
  assume "uid \<noteq> Some (added_by B) \<and> pg_integer (published_year (upd B))"
  then show "update_book uid now (b_id B) upd d = Inr d"
    by (intro update_book_not_owner [OF B pk]) simp
next
  assume "uid = Some (added_by B) \<and> pg_integer (f_published_year fd) \<and> books_fk_ok d B"
  then show "update_book uid now (b_id B) (apply_formData fd) d =
              Inr (d\<lparr>tbl_books := map (\<lambda>x. if b_id x = b_id B
                                            then (apply_formData fd B)\<lparr>b_updated_at := now\<rparr> else x)
                                     (tbl_books d)\<rparr>)"
    by (intro update_book_owner [OF B pk]) simp_all
qed

theorem book_owner_only_witness:
  "delete_book (Some 1) 10 library =
     Inr \<lparr>tbl_profiles = [ada, bob], tbl_books = [dune], tbl_reviews = []\<rparr>
   \<and> update_book (Some 1) 500 10 (apply_formData hobbit_form) library =
       Inr \<lparr>tbl_profiles = [ada, bob],
            tbl_books = [hobbit\<lparr>title := ''The Hobbit, or There and Back Again'',
                                description := ''A journey to the Lonely Mountain'',
                                b_updated_at := 500\<rparr>, dune],
            tbl_reviews = [ada_on_hobbit]\<rparr>
   \<and> delete_book (Some 2) 10 library = Inr library
   \<and> update_book None 500 10 (apply_formData hobbit_form) library = Inr library"
  using book_owner_only [where B = hobbit and d = library and uid = "Some 1" and now = 500
      and fd = hobbit_form]
    book_owner_only [where B = hobbit and d = library and uid = "Some 2"]
    book_owner_only [where B = hobbit and d = library and uid = None and now = 500
      and upd = "apply_formData hobbit_form"]
  by (simp add: library_defs hobbit_form_def apply_formData_def pg_integer_def books_fk_ok_def)

text \<open>Bob is not the owner of the Hobbit: his delete and his update are answered without
  an error, and the store is as before.\<close>

theorem book_not_owner_no_error:
  "added_by hobbit \<noteq> p_id bob
   \<and> delete_book (Some (p_id bob)) (b_id hobbit) library = Inr library
   \<and> update_book (Some (p_id bob)) 500 (b_id hobbit) (apply_formData hobbit_form) library
       = Inr library"
  by (simp add: library_defs delete_book_def update_book_def books_policy_def)

subsection \<open>One review for each book and actor\<close>

text \<open>
  C2. Once the store holds a review \<open>r\<close> of book \<open>B\<close> by actor \<open>A\<close>, every further insert by
  \<open>A\<close> for \<open>B\<close> is refused: with the unique violation when its rating is one of 1 to 5 (and
  with the violation of the rating's own rule otherwise); the page then shows the error and
  the store is the one it was. An insert for \<open>B\<close> by another actor \<open>A'\<close> that meets its own
  rules (a rating of 1 to 5, a fresh id, no review of \<open>B\<close> by \<open>A'\<close> yet, the book and the
  profile there) is stored, \<open>r\<close> notwithstanding.
\<close>

theorem second_review_rejected:
  assumes r: "r \<in> set (tbl_reviews d)" and rb: "book_id r = B" and ru: "user_id r = A"
  shows "insert_review (Some A) new_id now B A rat body d =
           Inl (if \<not> pg_integer rat then NumericValueOutOfRange
                else if \<not> (1 \<le> rat \<and> rat \<le> 5) then CheckViolation
                else UniqueViolation)
       \<and> (user st = Some A \<and> id_param st = B \<and> editingReview st = None
            \<and> 1 \<le> rating_state st \<and> rating_state st \<le> 5 \<longrightarrow>
            handleSubmitReview plan new_id now d st =
              (st\<lparr>error_state := Some (StoreError UniqueViolation), submitting := False\<rparr>, d))
       \<and> (A' \<noteq> A \<and> 1 \<le> rat' \<and> rat' \<le> 5
            \<and> \<not> list_ex (\<lambda>x. r_id x = new_id) (tbl_reviews d)
            \<and> \<not> list_ex (\<lambda>x. book_id x = B \<and> user_id x = A') (tbl_reviews d)
            \<and> list_ex (\<lambda>b. b_id b = B) (tbl_books d)
            \<and> list_ex (\<lambda>p. p_id p = A') (tbl_profiles d) \<longrightarrow>
            insert_review (Some A') new_id now B A' rat' body' d =
              Inr (d\<lparr>tbl_reviews := tbl_reviews d @
                       [\<lparr>r_id = new_id, book_id = B, user_id = A', rating = rat',
                         review_text = body', r_created_at = now, r_updated_at = now\<rparr>]\<rparr>))"
proof (intro conjI impI)
  have dup: "list_ex (\<lambda>x. book_id x = B \<and> user_id x = A) (tbl_reviews d)"
    using r rb ru by (auto simp: list_ex_iff)
  show ins: "insert_review (Some A) new_id now B A rat body d =
           Inl (if \<not> pg_integer rat then NumericValueOutOfRange
                else if \<not> (1 \<le> rat \<and> rat \<le> 5) then CheckViolation
                else UniqueViolation)" for rat body
    using dup
    by (simp add: insert_review_def Let_def reviews_policy_def reviews_rating_check_def
        reviews_unique_violated_def)
  assume "user st = Some A \<and> id_param st = B \<and> editingReview st = None
            \<and> 1 \<le> rating_state st \<and> rating_state st \<le> 5"
  then show "handleSubmitReview plan new_id now d st =
              (st\<lparr>error_state := Some (StoreError UniqueViolation), submitting := False\<rparr>, d)"
    using ins [of "rating_state st" "reviewText st"]
    by (simp add: handleSubmitReview_def pg_integer_def)
next
  assume "A' \<noteq> A \<and> 1 \<le> rat' \<and> rat' \<le> 5
            \<and> \<not> list_ex (\<lambda>x. r_id x = new_id) (tbl_reviews d)
            \<and> \<not> list_ex (\<lambda>x. book_id x = B \<and> user_id x = A') (tbl_reviews d)
            \<and> list_ex (\<lambda>b. b_id b = B) (tbl_books d)
            \<and> list_ex (\<lambda>p. p_id p = A') (tbl_profiles d)"
  then show "insert_review (Some A') new_id now B A' rat' body' d =
              Inr (d\<lparr>tbl_reviews := tbl_reviews d @
                       [\<lparr>r_id = new_id, book_id = B, user_id = A', rating = rat',
                         review_text = body', r_created_at = now, r_updated_at = now\<rparr>]\<rparr>)"
    by (simp add: insert_review_def Let_def reviews_policy_def reviews_rating_check_def
        reviews_unique_violated_def reviews_fk_ok_def pg_integer_def)
qed

theorem second_review_rejected_witness:
  "insert_review (Some 1) 21 500 10 1 3 ''Again'' library = Inl UniqueViolation
   \<and> insert_review (Some 2) 21 500 10 2 3 ''Mine'' library =
       Inr (library\<lparr>tbl_reviews := [ada_on_hobbit,
              \<lparr>r_id = 21, book_id = 10, user_id = 2, rating = 3, review_text = ''Mine'',
                r_created_at = 500, r_updated_at = 500\<rparr>]\<rparr>)"
  using second_review_rejected [where r = ada_on_hobbit and d = library and B = 10 and A = 1
      and new_id = 21 and now = 500 and rat = 3 and body = "''Again''" and A' = 2 and rat' = 3
      and body' = "''Mine''"]
  by (simp add: library_defs pg_integer_def)

lemma distinct_map_replace:
  assumes "distinct (map f xs)" and "distinct (map k xs)"
    and "\<forall>x \<in> set xs. k x \<noteq> c \<longrightarrow> f x \<noteq> f r"
  shows "distinct (map f (map (\<lambda>x. if k x = c then r else x) xs))"
  using assms
proof (induction xs)
  case Nil
  then show ?case by simp
next
  case (Cons x xs)
  show ?case
  proof (cases "k x = c")
    case True
    with Cons.prems(2) have "\<forall>y \<in> set xs. k y \<noteq> c" by (auto simp: image_iff)
    then have same: "map (\<lambda>x. if k x = c then r else x) xs = xs"
      by (induction xs) auto
    from \<open>\<forall>y \<in> set xs. k y \<noteq> c\<close> Cons.prems(3) have "f r \<notin> f ` set xs" by auto
    with Cons.prems(1) True show ?thesis by (simp add: same)
  next
    case False
    with Cons.prems(3) have "f x \<noteq> f r" by simp
    moreover have "distinct (map f (map (\<lambda>x. if k x = c then r else x) xs))"
      using Cons.prems by (intro Cons.IH) auto
    ultimately show ?thesis
      using Cons.prems(1) False by (auto simp: image_iff)
  qed
qed

text \<open>The invariant of \<^verbatim>\<open>UNIQUE(book_id, user_id)\<close>: no statement on reviews leaves an actor
  with two reviews of one book.\<close>

lemma one_review_per_book_and_actor:
  assumes pairs: "distinct (map (\<lambda>x. (book_id x, user_id x)) (tbl_reviews d))"
  shows "insert_review uid new_id now B A rat body d = Inr d' \<Longrightarrow>
           distinct (map (\<lambda>x. (book_id x, user_id x)) (tbl_reviews d'))"
    and "distinct (map r_id (tbl_reviews d)) \<Longrightarrow> update_review uid now rid upd d = Inr d' \<Longrightarrow>
           distinct (map (\<lambda>x. (book_id x, user_id x)) (tbl_reviews d'))"
    and "delete_review uid rid d = Inr d' \<Longrightarrow>
           distinct (map (\<lambda>x. (book_id x, user_id x)) (tbl_reviews d'))"
proof -
  show "insert_review uid new_id now B A rat body d = Inr d' \<Longrightarrow>
           distinct (map (\<lambda>x. (book_id x, user_id x)) (tbl_reviews d'))"
    using pairs
    by (auto simp: insert_review_def Let_def reviews_unique_violated_def list_ex_iff
        split: if_splits)
  show "delete_review uid rid d = Inr d' \<Longrightarrow>
           distinct (map (\<lambda>x. (book_id x, user_id x)) (tbl_reviews d'))"
    using pairs by (auto simp: delete_review_def distinct_map_filter)
  assume ids: "distinct (map r_id (tbl_reviews d))"
    and u: "update_review uid now rid upd d = Inr d'"
  show "distinct (map (\<lambda>x. (book_id x, user_id x)) (tbl_reviews d'))"
  proof (cases "find (\<lambda>r. r_id r = rid \<and> reviews_policy uid r) (tbl_reviews d)")
    case None
    with u pairs show ?thesis by (simp add: update_review_def)
  next
    case (Some old)
    define r where "r = (upd old)\<lparr>r_updated_at := now\<rparr>"
    from u Some have free: "\<not> reviews_unique_violated r (filter (\<lambda>x. r_id x \<noteq> rid) (tbl_reviews d))"
      and d': "d' = d\<lparr>tbl_reviews := map (\<lambda>x. if r_id x = rid then r else x) (tbl_reviews d)\<rparr>"
      by (auto simp: update_review_def Let_def r_def split: if_splits)
    from free have "\<forall>x \<in> set (tbl_reviews d). r_id x \<noteq> rid \<longrightarrow>
        (book_id x, user_id x) \<noteq> (book_id r, user_id r)"
      by (auto simp: reviews_unique_violated_def list_ex_iff)
    from distinct_map_replace [OF pairs ids this] show ?thesis
      by (simp add: d')
  qed
qed

subsection \<open>The order of the listing\<close>

lemma order_books_sort_column:
  "order_books plan s rows = sort_key (sort_column s) (sort_key plan rows)"
proof -
  have "sort_column newest = (\<lambda>b. - b_created_at b)"
    and "sort_column oldest = (\<lambda>b. b_created_at b)"
    and "s \<noteq> newest \<Longrightarrow> s \<noteq> oldest \<Longrightarrow> sort_column s = (\<lambda>b. - published_year b)"
    by (auto simp: sort_column_def fun_eq_iff)
  then show ?thesis
    by (auto simp: order_books_def)
qed

lemma books_query_sort:
  "books_query plan d st
     = sort_key (sort_column (sortBy st)) (sort_key plan (filtered_books d st))"
  by (simp add: books_query_def order_books_sort_column filtered_books_def Let_def)

text \<open>Where the keys of the rows are pairwise distinct the plan plays no part.\<close>

lemma books_query_distinct_keys:
  assumes "inj_on (sort_column (sortBy st)) (set (filtered_books d st))"
  shows "books_query plan d st = sort_key (sort_column (sortBy st)) (filtered_books d st)"
  unfolding books_query_sort using assms
  by (intro sort_key_eq_sort_key) simp_all

text \<open>Every arrangement of rows that is ordered by a key is what some plan yields.\<close>

lemma plan_for_arrangement:
  assumes m: "mset res = mset rows" and d: "distinct res" and s: "sorted (map k res)"
  shows "sort_key k (sort_key (\<lambda>b. int (length (takeWhile (\<lambda>x. x \<noteq> b) res))) rows) = res"
proof -
  let ?plan = "\<lambda>b. int (length (takeWhile (\<lambda>x. x \<noteq> b) res))"
  have at: "length (takeWhile (\<lambda>x. x \<noteq> res ! i) res) = i" if "i < length res" for i
  proof -
    have "takeWhile (\<lambda>x. x \<noteq> res ! i) res = take i res"
      using that d by (intro takeWhile_eq_take_P_nth) (auto simp: nth_eq_iff_index_eq)
    with that show ?thesis by simp
  qed
  have ranks: "map ?plan res = map int [0..<length res]"
    by (intro nth_equalityI) (simp_all add: at)
  have "sorted (map int [0..<length res])"
    by (simp add: sorted_map sorted_wrt_iff_nth_less)
  with ranks have sp: "sorted (map ?plan res)" by simp
  have "distinct (map ?plan res)"
    unfolding ranks by (simp add: distinct_map inj_on_def)
  then have inj: "inj_on ?plan (set res)"
    by (simp add: distinct_map)
  have "set rows = set res" using m by (metis set_mset_mset)
  with inj have "inj_on ?plan (set rows)" by simp
  with m have "sort_key ?plan rows = sort_key ?plan res"
    by (intro sort_key_eq_sort_key) simp_all
  also have "\<dots> = res" using sp by (rule sort_key_id_if_sorted)
  finally have "sort_key ?plan rows = res" .
  moreover have "sort_key k res = res" using s by (rule sort_key_id_if_sorted)
  ultimately show ?thesis by simp
qed

text \<open>
  C7, as the code has it. Whatever plan the database takes: the listing is a rearrangement
  of the rows the filters let through, ordered by the one column of the chosen key,
  creation time descending for \<open>newest\<close>, ascending for \<open>oldest\<close>, published year descending
  for \<open>year\<close>. The query names no second column, so nothing orders rows with equal keys:
  every arrangement \<open>res\<close> of the filtered rows that is ordered by the key is the listing
  under some plan. Where the keys of the rows of the table are pairwise distinct, the
  listing is the same under every plan and in whatever order the table holds them.
\<close>

theorem listing_order:
  "mset (books_query plan d st) = mset (filtered_books d st)
   \<and> (sortBy st = newest \<longrightarrow>
        sorted_wrt (\<lambda>x y. b_created_at x \<ge> b_created_at y) (books_query plan d st))
   \<and> (sortBy st = oldest \<longrightarrow>
        sorted_wrt (\<lambda>x y. b_created_at x \<le> b_created_at y) (books_query plan d st))
   \<and> (sortBy st = year \<longrightarrow>
        sorted_wrt (\<lambda>x y. published_year x \<ge> published_year y) (books_query plan d st))
   \<and> (mset res = mset (filtered_books d st) \<and> distinct res
        \<and> sorted (map (sort_column (sortBy st)) res)
        \<longrightarrow> (\<exists>plan'. books_query plan' d st = res))
   \<and> (mset (tbl_books d') = mset (tbl_books d)
        \<and> inj_on (sort_column (sortBy st)) (set (tbl_books d))
        \<longrightarrow> books_query plan' d' st = books_query plan d st)"
proof (intro conjI impI)
  show "mset (books_query plan d st) = mset (filtered_books d st)"
    by (simp add: books_query_sort)
  have s: "sorted (map (sort_column (sortBy st)) (books_query plan d st))"
    by (simp add: books_query_sort)
  {
    assume "sortBy st = newest"
    with s show "sorted_wrt (\<lambda>x y. b_created_at x \<ge> b_created_at y) (books_query plan d st)"
      by (simp add: sorted_map sort_column_def)
  }
  {
    assume "sortBy st = oldest"
    with s show "sorted_wrt (\<lambda>x y. b_created_at x \<le> b_created_at y) (books_query plan d st)"
      by (simp add: sorted_map sort_column_def)
  }
  {
    assume "sortBy st = year"
    with s show "sorted_wrt (\<lambda>x y. published_year x \<ge> published_year y) (books_query plan d st)"
      by (simp add: sorted_map sort_column_def)
  }
  {
    assume a: "mset res = mset (filtered_books d st) \<and> distinct res
        \<and> sorted (map (sort_column (sortBy st)) res)"
    then have "books_query (\<lambda>b. int (length (takeWhile (\<lambda>x. x \<noteq> b) res))) d st = res"
      unfolding books_query_sort by (intro plan_for_arrangement) simp_all
    then show "\<exists>plan'. books_query plan' d st = res"
      by (rule exI [where x = "\<lambda>b. int (length (takeWhile (\<lambda>x. x \<noteq> b) res))"])
  }
  assume a: "mset (tbl_books d') = mset (tbl_books d)
        \<and> inj_on (sort_column (sortBy st)) (set (tbl_books d))"
  then have m: "mset (filtered_books d' st) = mset (filtered_books d st)"
    unfolding filtered_books_def mset_filter by simp
  from a have "set (tbl_books d') = set (tbl_books d)"
    by (metis set_mset_mset)
  with a have i': "inj_on (sort_column (sortBy st)) (set (filtered_books d' st))"
    and i: "inj_on (sort_column (sortBy st)) (set (filtered_books d st))"
    by (auto simp: filtered_books_def intro: inj_on_subset)
  from m i' have "sort_key (sort_column (sortBy st)) (filtered_books d' st)
                  = sort_key (sort_column (sortBy st)) (filtered_books d st)"
    by (rule sort_key_eq_sort_key)
  then show "books_query plan' d' st = books_query plan d st"
    unfolding books_query_distinct_keys [OF i] books_query_distinct_keys [OF i'] .
qed

theorem listing_order_witness:
  "books_query greater_id_first (library\<lparr>tbl_books := [dune, hobbit]\<rparr>)
       (first_page\<lparr>sortBy := year\<rparr>)
     = books_query heap_order library (first_page\<lparr>sortBy := year\<rparr>)
   \<and> books_query heap_order library (first_page\<lparr>sortBy := year\<rparr>) = [dune, hobbit]
   \<and> (\<exists>plan. books_query plan library first_page = [dune, hobbit])"
proof -
  have y: "books_query heap_order library (first_page\<lparr>sortBy := year\<rparr>) = [dune, hobbit]"
    by code_simp
  have "mset (tbl_books (library\<lparr>tbl_books := [dune, hobbit]\<rparr>)) = mset (tbl_books library)
        \<and> inj_on (sort_column (sortBy (first_page\<lparr>sortBy := year\<rparr>))) (set (tbl_books library))"
    by (simp add: library_def first_page_def sort_column_def hobbit_def dune_def)
  with listing_order [where d = library and st = "first_page\<lparr>sortBy := year\<rparr>"
        and d' = "library\<lparr>tbl_books := [dune, hobbit]\<rparr>" and plan = heap_order
        and plan' = greater_id_first]
  have a: "books_query greater_id_first (library\<lparr>tbl_books := [dune, hobbit]\<rparr>)
       (first_page\<lparr>sortBy := year\<rparr>)
     = books_query heap_order library (first_page\<lparr>sortBy := year\<rparr>)"
    by blast
  have "mset [dune, hobbit] = mset (filtered_books library first_page) \<and> distinct [dune, hobbit]
        \<and> sorted (map (sort_column (sortBy first_page)) [dune, hobbit])"
    by (simp add: filtered_books_def library_def first_page_def sort_column_def hobbit_def
        dune_def)
  with listing_order [where d = library and st = first_page and res = "[dune, hobbit]"]
  have b: "\<exists>plan. books_query plan library first_page = [dune, hobbit]"
    by blast
  from a y b show ?thesis by (intro conjI)
qed

text \<open>
  Rows of equal key that do not come by id ascending. Dune (id 11) and the Hobbit (id 10)
  have one creation time; where the table holds Dune first and the plan yields the rows
  as the table holds them, the listings by creation time give Dune first. The twelve
  volumes have one published year; where the plan yields the greater id first (the rows
  stored later first), the first page of the listing by year holds the ids 12 down to 8.
\<close>

theorem ties_not_by_id:
  "b_created_at dune = b_created_at hobbit
   \<and> map b_id (books_query heap_order (library\<lparr>tbl_books := [dune, hobbit]\<rparr>) first_page)
       = [11, 10]
   \<and> map b_id (books_query heap_order (library\<lparr>tbl_books := [dune, hobbit]\<rparr>)
                  (first_page\<lparr>sortBy := oldest\<rparr>)) = [11, 10]
   \<and> map published_year (tbl_books twelve)
       = [2000, 2000, 2000, 2000, 2000, 2000, 2000, 2000, 2000, 2000, 2000, 2000]
   \<and> map b_id (books (fetchBooks EmptySlice greater_id_first twelve
                         (first_page\<lparr>sortBy := year\<rparr>))) = [12, 11, 10, 9, 8]"
  by code_simp

subsection \<open>A page of the listing\<close>

lemma fetchBooks_in_range:
  assumes "1 \<le> currentPage st"
    and "nat ((currentPage st - 1) * 5) \<le> length (books_query plan d st)"
  shows "fetchBooks beyond plan d st =
           st\<lparr>books := take 5 (drop (nat ((currentPage st - 1) * 5)) (books_query plan d st)),
              totalBooks := length (books_query plan d st), loading := False\<rparr>"
proof -
  have "\<not> int (length (books_query plan d st)) < (currentPage st - 1) * 5"
    using assms by linarith
  moreover have "\<not> (currentPage st - 1) * 5 < 0" using assms by simp
  ultimately show ?thesis
    by (simp add: fetchBooks_def select_range_def BOOKS_PER_PAGE_def Let_def)
qed

lemma fetchBooks_beyond:
  assumes "1 \<le> currentPage st"
    and "length (books_query plan d st) < nat ((currentPage st - 1) * 5)"
  shows "fetchBooks RangeError plan d st = st\<lparr>loading := False\<rparr>"
    and "fetchBooks EmptySlice plan d st =
           st\<lparr>books := [], totalBooks := length (books_query plan d st), loading := False\<rparr>"
proof -
  have "int (length (books_query plan d st)) < (currentPage st - 1) * 5"
    using assms by linarith
  moreover have "\<not> (currentPage st - 1) * 5 < 0" using assms by simp
  ultimately show "fetchBooks RangeError plan d st = st\<lparr>loading := False\<rparr>"
    and "fetchBooks EmptySlice plan d st =
           st\<lparr>books := [], totalBooks := length (books_query plan d st), loading := False\<rparr>"
    using assms
    by (simp_all add: fetchBooks_def select_range_def BOOKS_PER_PAGE_def Let_def)
qed

text \<open>
  The pages of the listing. For a page number \<open>p \<ge> 1\<close> and the \<open>n\<close> rows of the query
  (filtered and ordered): when the offset \<open>(p - 1) * 5\<close> is at most \<open>n\<close>, the page takes the
  rows at the positions \<open>(p - 1) * 5\<close> to \<open>(p - 1) * 5 + 4\<close>, as many of them as exist, and the
  count \<open>n\<close>, whatever the service answers beyond the count; with twelve rows page 3 holds
  two books and the count 12. When the offset is beyond \<open>n\<close>, as on page 4 of twelve rows,
  it is the answer of the service that decides: with the empty slice the page shows no
  book and the count \<open>n\<close>, with the range error it keeps the books and the count it had.
\<close>

lemma listing_page:
  assumes p: "1 \<le> currentPage st"
  shows "(nat ((currentPage st - 1) * 5) \<le> length (books_query plan d st) \<longrightarrow>
            fetchBooks beyond plan d st =
              st\<lparr>books := take 5 (drop (nat ((currentPage st - 1) * 5)) (books_query plan d st)),
                 totalBooks := length (books_query plan d st), loading := False\<rparr>
            \<and> length (books (fetchBooks beyond plan d st))
                = min 5 (length (books_query plan d st) - nat ((currentPage st - 1) * 5))
            \<and> (\<forall>i < length (books (fetchBooks beyond plan d st)).
                  books (fetchBooks beyond plan d st) ! i
                    = books_query plan d st ! (nat ((currentPage st - 1) * 5) + i)))
       \<and> (length (books_query plan d st) < nat ((currentPage st - 1) * 5) \<longrightarrow>
            fetchBooks RangeError plan d st = st\<lparr>loading := False\<rparr>
            \<and> fetchBooks EmptySlice plan d st =
                st\<lparr>books := [], totalBooks := length (books_query plan d st),
                   loading := False\<rparr>)
       \<and> (length (books_query plan d st) = 12 \<and> currentPage st = 3 \<longrightarrow>
            length (books (fetchBooks beyond plan d st)) = 2
            \<and> totalBooks (fetchBooks beyond plan d st) = 12)
       \<and> (length (books_query plan d st) = 12 \<and> currentPage st = 4 \<longrightarrow>
            fetchBooks RangeError plan d st = st\<lparr>loading := False\<rparr>
            \<and> fetchBooks EmptySlice plan d st
                = st\<lparr>books := [], totalBooks := 12, loading := False\<rparr>)"
proof (intro conjI impI)
  assume a: "nat ((currentPage st - 1) * 5) \<le> length (books_query plan d st)"
  show f: "fetchBooks beyond plan d st =
              st\<lparr>books := take 5 (drop (nat ((currentPage st - 1) * 5)) (books_query plan d st)),
                 totalBooks := length (books_query plan d st), loading := False\<rparr>"
    by (rule fetchBooks_in_range [OF p a])
  show "length (books (fetchBooks beyond plan d st))
                = min 5 (length (books_query plan d st) - nat ((currentPage st - 1) * 5))"
    unfolding f by (simp add: min.commute)
  show "\<forall>i < length (books (fetchBooks beyond plan d st)).
                  books (fetchBooks beyond plan d st) ! i
                    = books_query plan d st ! (nat ((currentPage st - 1) * 5) + i)"
    unfolding f using a by simp
next
  assume "length (books_query plan d st) < nat ((currentPage st - 1) * 5)"
  then show "fetchBooks RangeError plan d st = st\<lparr>loading := False\<rparr>"
    and "fetchBooks EmptySlice plan d st =
                st\<lparr>books := [], totalBooks := length (books_query plan d st),
                   loading := False\<rparr>"
    by (rule fetchBooks_beyond [OF p])+
next
  assume a: "length (books_query plan d st) = 12 \<and> currentPage st = 3"
  then have "nat ((currentPage st - 1) * 5) \<le> length (books_query plan d st)" by simp
  from fetchBooks_in_range [OF p this] a
  have r: "length (books (fetchBooks beyond plan d st)) = 2
           \<and> totalBooks (fetchBooks beyond plan d st) = 12"
    by simp
  from r show "length (books (fetchBooks beyond plan d st)) = 2" by simp
  from r show "totalBooks (fetchBooks beyond plan d st) = 12" by simp
next
  assume a: "length (books_query plan d st) = 12 \<and> currentPage st = 4"
  then have b: "length (books_query plan d st) < nat ((currentPage st - 1) * 5)" by simp
  from b show "fetchBooks RangeError plan d st = st\<lparr>loading := False\<rparr>"
    by (rule fetchBooks_beyond [OF p])
  from fetchBooks_beyond(2) [OF p b] a
  show "fetchBooks EmptySlice plan d st
                = st\<lparr>books := [], totalBooks := 12, loading := False\<rparr>"
    by simp
qed

text \<open>The twelve books, newest first, have pairwise distinct keys: the query is the same
  under every plan.\<close>

lemma books_query_twelve:
  assumes "searchQuery st = []" and "selectedGenre st = []" and "sortBy st = newest"
  shows "books_query plan twelve st = map volume [12, 11, 10, 9, 8, 7, 6, 5, 4, 3, 2, 1]"
proof -
  have f: "filtered_books twelve st = map volume [1, 2, 3, 4, 5, 6, 7, 8, 9, 10, 11, 12]"
    using assms by (simp add: filtered_books_def twelve_def)
  have "inj_on (sort_column newest) (set (map volume [1, 2, 3, 4, 5, 6, 7, 8, 9, 10, 11, 12]))"
    by (auto simp: inj_on_def sort_column_def volume_def)
  with f assms have "books_query plan twelve st
      = sort_key (sort_column newest) (map volume [1, 2, 3, 4, 5, 6, 7, 8, 9, 10, 11, 12])"
    by (simp add: books_query_distinct_keys)
  also have "\<dots> = map volume [12, 11, 10, 9, 8, 7, 6, 5, 4, 3, 2, 1]"
    by code_simp
  finally show ?thesis .
qed

text \<open>A query text or a genre that no book has leaves no row, under every plan.\<close>

lemma books_query_none:
  assumes "filtered_books d st = []"
  shows "books_query plan d st = []"
  by (simp add: books_query_sort assms)

lemma listing_page_twelve:
  "books (fetchBooks beyond plan twelve (first_page\<lparr>currentPage := 3\<rparr>)) = [volume 2, volume 1]
   \<and> totalBooks (fetchBooks beyond plan twelve (first_page\<lparr>currentPage := 3\<rparr>)) = 12
   \<and> fetchBooks EmptySlice plan twelve (first_page\<lparr>currentPage := 4\<rparr>)
       = first_page\<lparr>currentPage := 4, totalBooks := 12, loading := False\<rparr>
   \<and> fetchBooks RangeError plan twelve (first_page\<lparr>currentPage := 4\<rparr>)
       = first_page\<lparr>currentPage := 4, loading := False\<rparr>"
proof -
  have q: "books_query plan twelve (first_page\<lparr>currentPage := p\<rparr>)
             = map volume [12, 11, 10, 9, 8, 7, 6, 5, 4, 3, 2, 1]" for p
    by (rule books_query_twelve) (simp_all add: first_page_def)
  show ?thesis
    using listing_page [of "first_page\<lparr>currentPage := 3\<rparr>" plan twelve beyond]
      listing_page [of "first_page\<lparr>currentPage := 4\<rparr>" plan twelve]
    unfolding q
    by (simp add: first_page_def)
qed

text \<open>The genre, the sort key and the search button put the listing on its first page; the
  search box leaves it on the page it is on.\<close>

lemma controls_and_page:
  "currentPage (onGenreChange beyond plan g d st) = 1"
  "currentPage (onSortChange beyond plan s d st) = 1"
  "currentPage (handleSearch beyond plan d st) = 1"
  "currentPage (onSearchChange beyond plan q d st) = currentPage st"
proof -
  have "currentPage (fetchBooks beyond plan d x) = currentPage x" for x
    by (simp add: fetchBooks_def Let_def split: sum.splits prod.splits)
  then have "currentPage (refetch beyond plan d st x) = currentPage x" for x
    by (simp add: refetch_def)
  then show "currentPage (onGenreChange beyond plan g d st) = 1"
    and "currentPage (onSortChange beyond plan s d st) = 1"
    and "currentPage (handleSearch beyond plan d st) = 1"
    and "currentPage (onSearchChange beyond plan q d st) = currentPage st"
    by (simp_all add: onGenreChange_def onSortChange_def handleSearch_def onSearchChange_def)
qed

text \<open>
  C5, at a request beyond the last page. The page is mounted over the twelve books and the user
  goes to page 3: it shows the volumes 2 and 1 and the count 12. The user then types
  \<^verbatim>\<open>dune\<close> into the search box, which no book matches. The box sets the query text and
  leaves the page number, so the request is for page 3 of no rows, an offset of 10 beyond
  a count of 0. Where the service answers that with the range error, \<^verbatim>\<open>fetchBooks\<close> throws
  it to its \<^verbatim>\<open>catch\<close>, which logs it: under the query \<^verbatim>\<open>dune\<close> the page goes on showing the
  volumes 2 and 1 and the count 12, where the claim has an empty slice and the count 0.
  (Where the service answers with the empty slice, the page shows that.) The genre, the
  sort key and the search button go through \<^verbatim>\<open>setCurrentPage(1)\<close>: choosing a genre no book
  has shows no book and the count 0. And page 4 of the twelve rows, the claim's own case:
  under the range error the page keeps the two books of page 3. All this under every plan.
\<close>

theorem search_box_keeps_page:
  "onPageClick RangeError plan 3 twelve (fetchBooks RangeError plan twelve first_page)
     = third_page
   \<and> books_query plan twelve (third_page\<lparr>searchQuery := ''dune''\<rparr>) = []
   \<and> onSearchChange RangeError plan ''dune'' twelve third_page
       = third_page\<lparr>searchQuery := ''dune''\<rparr>
   \<and> books (onSearchChange RangeError plan ''dune'' twelve third_page) = [volume 2, volume 1]
   \<and> totalBooks (onSearchChange RangeError plan ''dune'' twelve third_page) = 12
   \<and> onSearchChange EmptySlice plan ''dune'' twelve third_page
       = third_page\<lparr>searchQuery := ''dune'', books := [], totalBooks := 0\<rparr>
   \<and> onGenreChange RangeError plan ''Poetry'' twelve third_page
       = third_page\<lparr>selectedGenre := ''Poetry'', currentPage := 1, books := [],
                     totalBooks := 0\<rparr>
   \<and> length (books_query plan twelve (third_page\<lparr>currentPage := 4\<rparr>)) = 12
   \<and> fetchBooks RangeError plan twelve (third_page\<lparr>currentPage := 4\<rparr>)
       = third_page\<lparr>currentPage := 4\<rparr>"
proof -
  have q: "books_query plan twelve st = map volume [12, 11, 10, 9, 8, 7, 6, 5, 4, 3, 2, 1]"
    if "searchQuery st = []" and "selectedGenre st = []" and "sortBy st = newest" for st
    using that by (rule books_query_twelve)
  have f: "filtered_books twelve (third_page\<lparr>searchQuery := ''dune''\<rparr>) = []"
    by code_simp
  have g: "filtered_books twelve (third_page\<lparr>selectedGenre := ''Poetry'', currentPage := 1\<rparr>) = []"
    by code_simp
  note none = books_query_none [OF f] books_query_none [OF g]
  have fields: "currentPage third_page = 3" "searchQuery third_page = []"
    "selectedGenre third_page = []" "sortBy third_page = newest"
    by (simp_all add: third_page_def)
  have mount: "fetchBooks RangeError plan twelve first_page
      = first_page\<lparr>books := map volume [12, 11, 10, 9, 8], totalBooks := 12, loading := False\<rparr>"
    by (simp add: fetchBooks_def select_range_def BOOKS_PER_PAGE_def Let_def q first_page_def)
  have click: "onPageClick RangeError plan 3 twelve
      (first_page\<lparr>books := map volume [12, 11, 10, 9, 8], totalBooks := 12, loading := False\<rparr>)
      = third_page"
    by (simp add: onPageClick_def refetch_def totalPages_def fetchBooks_def select_range_def
        BOOKS_PER_PAGE_def Let_def q first_page_def third_page_def)
  have typed: "onSearchChange RangeError plan ''dune'' twelve third_page
       = third_page\<lparr>searchQuery := ''dune''\<rparr>"
    by (simp add: onSearchChange_def refetch_def fetchBooks_def select_range_def
        BOOKS_PER_PAGE_def Let_def none fields) (simp add: third_page_def)
  have typed': "onSearchChange EmptySlice plan ''dune'' twelve third_page
       = third_page\<lparr>searchQuery := ''dune'', books := [], totalBooks := 0\<rparr>"
    by (simp add: onSearchChange_def refetch_def fetchBooks_def select_range_def
        BOOKS_PER_PAGE_def Let_def none fields) (simp add: third_page_def)
  have chosen: "onGenreChange RangeError plan ''Poetry'' twelve third_page
       = third_page\<lparr>selectedGenre := ''Poetry'', currentPage := 1, books := [],
                     totalBooks := 0\<rparr>"
    by (simp add: onGenreChange_def refetch_def fetchBooks_def select_range_def
        BOOKS_PER_PAGE_def Let_def none fields) (simp add: third_page_def)
  have four: "fetchBooks RangeError plan twelve (third_page\<lparr>currentPage := 4\<rparr>)
       = third_page\<lparr>currentPage := 4\<rparr>"
    by (simp add: fetchBooks_def select_range_def BOOKS_PER_PAGE_def Let_def q fields)
      (simp add: third_page_def)
  have len: "length (books_query plan twelve (third_page\<lparr>currentPage := 4\<rparr>)) = 12"
    by (simp add: q fields)
  have shown: "books (third_page\<lparr>searchQuery := ''dune''\<rparr>) = [volume 2, volume 1]"
    and counted: "totalBooks (third_page\<lparr>searchQuery := ''dune''\<rparr>) = 12"
    by (simp_all add: third_page_def)
  show ?thesis
    unfolding mount click typed typed' chosen four len shown counted none
    by simp
qed

subsection \<open>Updating a profile\<close>

lemma map_by_key:
  assumes "distinct (map f xs)" and "B \<in> set xs" and "f B' = f B"
  shows "map f (map (\<lambda>x. if f x = f B then B' else x) xs) = map f xs"
  using assms by (induction xs) auto

text \<open>
  C8, as the code has it. For a profile \<open>P\<close> of the store (ids and emails being unique) and
  any actor \<open>uid\<close>: an update by anyone but \<open>P\<close> itself is answered without an error and
  leaves the store as it is; no update, whatever it sets, changes the id of a profile or
  touches the books and reviews; the policy names no column, so the owner's update of the
  name is stored, and so is the owner's update of the email when no other profile has the
  new one.
\<close>

theorem profile_owner_only:
  assumes P: "P \<in> set (tbl_profiles d)"
    and pk: "distinct (map p_id (tbl_profiles d))"
    and uq: "distinct (map email (tbl_profiles d))"
  shows "(uid \<noteq> Some (p_id P) \<longrightarrow> update_profile uid (p_id P) upd d = Inr d)
       \<and> (\<forall>d'. update_profile uid (p_id P) upd d = Inr d' \<longrightarrow>
             map p_id (tbl_profiles d') = map p_id (tbl_profiles d)
             \<and> tbl_books d' = tbl_books d \<and> tbl_reviews d' = tbl_reviews d)
       \<and> (uid = Some (p_id P) \<longrightarrow>
            update_profile uid (p_id P) (set_name n) d =
              Inr (d\<lparr>tbl_profiles := map (\<lambda>x. if p_id x = p_id P then P\<lparr>name := n\<rparr> else x)
                                        (tbl_profiles d)\<rparr>))
       \<and> (uid = Some (p_id P)
            \<and> \<not> list_ex (\<lambda>x. p_id x \<noteq> p_id P \<and> email x = e) (tbl_profiles d) \<longrightarrow>
            update_profile uid (p_id P) (set_email e) d =
              Inr (d\<lparr>tbl_profiles := map (\<lambda>x. if p_id x = p_id P then P\<lparr>email := e\<rparr> else x)
                                        (tbl_profiles d)\<rparr>))"
proof (intro conjI impI allI)
  note f = find_by_key [OF pk P, of "profiles_policy uid"]
  {
    assume "uid \<noteq> Some (p_id P)"
    then show "update_profile uid (p_id P) upd d = Inr d"
      unfolding update_profile_def f by (simp add: profiles_policy_def)
  }
  {
    fix d' assume u: "update_profile uid (p_id P) upd d = Inr d'"
    have "map p_id (tbl_profiles d') = map p_id (tbl_profiles d)
             \<and> tbl_books d' = tbl_books d \<and> tbl_reviews d' = tbl_reviews d"
    proof (cases "uid = Some (p_id P)")
      case False
      then have "update_profile uid (p_id P) upd d = Inr d"
        unfolding update_profile_def f by (simp add: profiles_policy_def)
      with u show ?thesis by simp
    next
      case True
      with u have same: "p_id (upd P) = p_id P"
        and d': "d' = d\<lparr>tbl_profiles := map (\<lambda>x. if p_id x = p_id P then upd P else x) (tbl_profiles d)\<rparr>"
        unfolding update_profile_def f
        by (auto simp: profiles_policy_def Let_def split: if_splits)
      from map_by_key [OF pk P same] show ?thesis
        unfolding d' by simp
    qed
    then show "map p_id (tbl_profiles d') = map p_id (tbl_profiles d)"
      and "tbl_books d' = tbl_books d" and "tbl_reviews d' = tbl_reviews d"
      by simp_all
  }
  have others: "\<And>x. x \<in> set (tbl_profiles d) \<Longrightarrow> email x = email P \<Longrightarrow> p_id x = p_id P"
    using same_key_same_row [OF uq P] by auto
  {
    assume "uid = Some (p_id P)"
    then show "update_profile uid (p_id P) (set_name n) d =
              Inr (d\<lparr>tbl_profiles := map (\<lambda>x. if p_id x = p_id P then P\<lparr>name := n\<rparr> else x)
                                        (tbl_profiles d)\<rparr>)"
      unfolding update_profile_def f
      using others
      by (auto simp: profiles_policy_def Let_def set_name_def profiles_unique_violated_def list_ex_iff)
  }
  {
    assume "uid = Some (p_id P)
            \<and> \<not> list_ex (\<lambda>x. p_id x \<noteq> p_id P \<and> email x = e) (tbl_profiles d)"
    then show "update_profile uid (p_id P) (set_email e) d =
              Inr (d\<lparr>tbl_profiles := map (\<lambda>x. if p_id x = p_id P then P\<lparr>email := e\<rparr> else x)
                                        (tbl_profiles d)\<rparr>)"
      unfolding update_profile_def f
      by (auto simp: profiles_policy_def Let_def set_email_def profiles_unique_violated_def list_ex_iff)
  }
qed


theorem profile_owner_only_witness:
  "update_profile (Some 1) 1 (set_name ''Ada L.'') library
     = Inr (library\<lparr>tbl_profiles := [ada\<lparr>name := ''Ada L.''\<rparr>, bob]\<rparr>)
   \<and> update_profile (Some 2) 1 (set_name ''Ada L.'') library = Inr library"
  using profile_owner_only [where P = ada and d = library and uid = "Some 1" and n = "''Ada L.''"]
    profile_owner_only [where P = ada and d = library and uid = "Some 2"
      and upd = "set_name ''Ada L.''"]
  by (simp add: library_def ada_def bob_def)

text \<open>Ada gives her profile another email: the update is stored.\<close>

theorem profile_email_changes:
  "update_profile (Some (p_id ada)) (p_id ada) (set_email ''eve@x.com'') library
     = Inr (library\<lparr>tbl_profiles := [ada\<lparr>email := ''eve@x.com''\<rparr>, bob]\<rparr>)
   \<and> email (ada\<lparr>email := ''eve@x.com''\<rparr>) \<noteq> email ada"
  by (simp add: library_def ada_def bob_def update_profile_def profiles_policy_def
      set_email_def profiles_unique_violated_def)

subsection \<open>The review form of the details page\<close>

lemma userReview_None:
  "(userReview st = None) = (\<not> (\<exists>r \<in> set (reviews st). Some (user_id r) = user st))"
  by (auto simp: userReview_def find_None_iff)

text \<open>
  C9. Where the page shows the details of a book, the review form is rendered if and only
  if a user is signed in and none of the reviews on the page is theirs; and after
  \<^verbatim>\<open>fetchReviews\<close> a review on the page is theirs exactly when the store holds a review of
  the displayed book by them. For a user whose review \<open>r\<close> is on the page,
  \<^verbatim>\<open>handleEditReview\<close> sets \<^verbatim>\<open>editingReview\<close> to the id of \<open>r\<close> and copies its rating and text,
  and the page it renders has no review form.
\<close>

theorem review_form_guard:
  "(render st = Details v \<longrightarrow>
      review_form v = (user st \<noteq> None \<and> \<not> (\<exists>r \<in> set (reviews st). Some (user_id r) = user st)))
   \<and> (r \<in> set (reviews st) \<and> user st = Some (user_id r) \<longrightarrow>
        editingReview (handleEditReview r st) = Some (r_id r)
        \<and> rating_state (handleEditReview r st) = rating r
        \<and> reviewText (handleEditReview r st) = review_text r
        \<and> (\<forall>w. render (handleEditReview r st) = Details w \<longrightarrow> \<not> review_form w))
   \<and> (\<exists>x \<in> set (reviews (fetchReviews plan d st)). Some (user_id x) = user st)
       = (\<exists>x \<in> set (tbl_reviews d). book_id x = id_param st \<and> Some (user_id x) = user st)"
proof (intro conjI impI allI)
  show "(\<exists>x \<in> set (reviews (fetchReviews plan d st)). Some (user_id x) = user st)
       = (\<exists>x \<in> set (tbl_reviews d). book_id x = id_param st \<and> Some (user_id x) = user st)"
    by (auto simp: fetchReviews_def)
next
  assume "render st = Details v"
  then show "review_form v
      = (user st \<noteq> None \<and> \<not> (\<exists>r \<in> set (reviews st). Some (user_id r) = user st))"
    by (auto simp: render_def userReview_None split: if_splits option.splits)
next
  assume a: "r \<in> set (reviews st) \<and> user st = Some (user_id r)"
  show "editingReview (handleEditReview r st) = Some (r_id r)"
    and "rating_state (handleEditReview r st) = rating r"
    and "reviewText (handleEditReview r st) = review_text r"
    by (simp_all add: handleEditReview_def)
  fix w assume "render (handleEditReview r st) = Details w"
  moreover have "userReview (handleEditReview r st) \<noteq> None"
    using a by (auto simp: userReview_None handleEditReview_def)
  ultimately show "\<not> review_form w"
    by (auto simp: render_def split: if_splits option.splits)
qed

theorem review_form_guard_witness:
  "render ada_reads_hobbit
     = Details \<lparr>stars_shown = 5, average_shown = 50, owner_actions = True,
                review_form = False, review_actions = [True]\<rparr>
   \<and> editingReview (handleEditReview ada_on_hobbit ada_reads_hobbit) = Some 20
   \<and> render (handleEditReview ada_on_hobbit ada_reads_hobbit)
       = Details \<lparr>stars_shown = 5, average_shown = 50, owner_actions = True,
                  review_form = False, review_actions = [True]\<rparr>
   \<and> render (ada_reads_hobbit\<lparr>user := Some 2\<rparr>)
       = Details \<lparr>stars_shown = 5, average_shown = 50, owner_actions = False,
                  review_form = True, review_actions = [False]\<rparr>"
proof -
  have r: "render ada_reads_hobbit
     = Details \<lparr>stars_shown = 5, average_shown = 50, owner_actions = True,
                review_form = False, review_actions = [True]\<rparr>"
    by code_simp
  have e: "ada_on_hobbit \<in> set (reviews ada_reads_hobbit)
           \<and> user ada_reads_hobbit = Some (user_id ada_on_hobbit)"
    by (simp add: ada_reads_hobbit_def ada_on_hobbit_def)
  have "render (handleEditReview ada_on_hobbit ada_reads_hobbit)
       = Details \<lparr>stars_shown = 5, average_shown = 50, owner_actions = True,
                  review_form = False, review_actions = [True]\<rparr>"
    by code_simp
  moreover have "render (ada_reads_hobbit\<lparr>user := Some 2\<rparr>)
       = Details \<lparr>stars_shown = 5, average_shown = 50, owner_actions = False,
                  review_form = True, review_actions = [False]\<rparr>"
    by code_simp
  moreover have "editingReview (handleEditReview ada_on_hobbit ada_reads_hobbit) = Some 20"
    using review_form_guard [where st = ada_reads_hobbit
      and v = "\<lparr>stars_shown = 5, average_shown = 50, owner_actions = True,
        review_form = False, review_actions = [True]\<rparr>" and r = ada_on_hobbit
      and d = library] r e
    by (simp add: ada_on_hobbit_def)
  ultimately show ?thesis using r by simp
qed

subsection \<open>The published year\<close>

text \<open>
  C10. The form is valid only with a year from 1000 to the current year \<open>cy\<close>, and pressing
  submit with a year outside does nothing. Behind the form nothing looks at that range:
  the insert (a fresh id, the owner's profile there) stores every year the column type
  \<^verbatim>\<open>integer\<close> holds and refuses only the others, and \<^verbatim>\<open>handleSubmit\<close>, creating a book or
  editing one's own, stores the year of the form whatever it is.
\<close>

theorem published_year_unchecked:
  assumes fresh: "\<not> list_ex (\<lambda>x. b_id x = new_id) (tbl_books d)"
    and prof: "list_ex (\<lambda>p. p_id p = u) (tbl_profiles d)"
  shows "(form_valid cy (formData st) \<longrightarrow>
            1000 \<le> f_published_year (formData st) \<and> f_published_year (formData st) \<le> cy)
       \<and> (\<not> published_year_input_valid cy (f_published_year (formData st)) \<longrightarrow>
            submit_form cy new_id now d st = (st, d))
       \<and> insert_book (Some u) new_id now t a de g y u d =
           (if pg_integer y
            then Inr (d\<lparr>tbl_books := tbl_books d @
                        [\<lparr>b_id = new_id, title = t, author = a, description = de, genre = g,
                          published_year = y, added_by = u, b_created_at = now,
                          b_updated_at = now\<rparr>]\<rparr>)
            else Inl NumericValueOutOfRange)
       \<and> (form_id st = None \<and> form_user st = Some u
            \<and> pg_integer (f_published_year (formData st)) \<longrightarrow>
            handleSubmit new_id now d st =
              (st\<lparr>form_error := None, form_loading := True,
                  form_location := Some (BookRoute new_id)\<rparr>,
               d\<lparr>tbl_books := tbl_books d @
                        [\<lparr>b_id = new_id, title = f_title (formData st),
                          author = f_author (formData st),
                          description = f_description (formData st),
                          genre = f_genre (formData st),
                          published_year = f_published_year (formData st), added_by = u,
                          b_created_at = now, b_updated_at = now\<rparr>]\<rparr>))
       \<and> (B \<in> set (tbl_books d) \<and> distinct (map b_id (tbl_books d)) \<and> added_by B = u
            \<and> form_id st = Some (b_id B) \<and> form_user st = Some u
            \<and> pg_integer (f_published_year (formData st)) \<longrightarrow>
            handleSubmit new_id now d st =
              (st\<lparr>form_error := None, form_loading := True,
                  form_location := Some (BookRoute (b_id B))\<rparr>,
               d\<lparr>tbl_books := map (\<lambda>x. if b_id x = b_id B
                                         then (apply_formData (formData st) B)\<lparr>b_updated_at := now\<rparr>
                                         else x)
                                  (tbl_books d)\<rparr>))"
proof (intro conjI impI)
  show ins: "insert_book (Some u) new_id now t a de g y u d =
           (if pg_integer y
            then Inr (d\<lparr>tbl_books := tbl_books d @
                        [\<lparr>b_id = new_id, title = t, author = a, description = de, genre = g,
                          published_year = y, added_by = u, b_created_at = now,
                          b_updated_at = now\<rparr>]\<rparr>)
            else Inl NumericValueOutOfRange)" for t a de g y
    using fresh prof
    by (simp add: insert_book_def Let_def books_policy_def books_unique_violated_def
        books_fk_ok_def)
  assume "form_id st = None \<and> form_user st = Some u
            \<and> pg_integer (f_published_year (formData st))"
  then show "handleSubmit new_id now d st =
              (st\<lparr>form_error := None, form_loading := True,
                  form_location := Some (BookRoute new_id)\<rparr>,
               d\<lparr>tbl_books := tbl_books d @
                        [\<lparr>b_id = new_id, title = f_title (formData st),
                          author = f_author (formData st),
                          description = f_description (formData st),
                          genre = f_genre (formData st),
                          published_year = f_published_year (formData st), added_by = u,
                          b_created_at = now, b_updated_at = now\<rparr>]\<rparr>)"
    by (simp add: handleSubmit_def Let_def ins)
next
  assume "form_valid cy (formData st)"
  then show "1000 \<le> f_published_year (formData st)" and "f_published_year (formData st) \<le> cy"
    by (simp_all add: form_valid_def published_year_input_valid_def)
next
  assume "\<not> published_year_input_valid cy (f_published_year (formData st))"
  then show "submit_form cy new_id now d st = (st, d)"
    by (simp add: submit_form_def form_valid_def)
next
  assume a: "B \<in> set (tbl_books d) \<and> distinct (map b_id (tbl_books d)) \<and> added_by B = u
            \<and> form_id st = Some (b_id B) \<and> form_user st = Some u
            \<and> pg_integer (f_published_year (formData st))"
  with prof have "update_book (form_user st) now (b_id B) (apply_formData (formData st)) d =
           Inr (d\<lparr>tbl_books := map (\<lambda>x. if b_id x = b_id B
                                         then (apply_formData (formData st) B)\<lparr>b_updated_at := now\<rparr>
                                         else x)
                                  (tbl_books d)\<rparr>)"
    by (intro update_book_owner) (simp_all add: books_fk_ok_def)
  with a show "handleSubmit new_id now d st =
              (st\<lparr>form_error := None, form_loading := True,
                  form_location := Some (BookRoute (b_id B))\<rparr>,
               d\<lparr>tbl_books := map (\<lambda>x. if b_id x = b_id B
                                         then (apply_formData (formData st) B)\<lparr>b_updated_at := now\<rparr>
                                         else x)
                                  (tbl_books d)\<rparr>)"
    by (simp add: handleSubmit_def Let_def)
qed

theorem published_year_unchecked_witness:
  "\<not> published_year_input_valid 2025 975
   \<and> submit_form 2025 12 500 library beowulf_form = (beowulf_form, library)
   \<and> snd (handleSubmit 12 500 library beowulf_form)
       = library\<lparr>tbl_books := [hobbit, dune,
           \<lparr>b_id = 12, title = ''Beowulf'', author = ''Anon'', description = ''Grendel'',
             genre = ''Poetry'', published_year = 975, added_by = 1, b_created_at = 500,
             b_updated_at = 500\<rparr>]\<rparr>
   \<and> snd (handleSubmit 12 500 library (beowulf_form\<lparr>form_id := Some 10\<rparr>))
       = library\<lparr>tbl_books := [\<lparr>b_id = 10, title = ''Beowulf'', author = ''Anon'',
             description = ''Grendel'', genre = ''Poetry'', published_year = 975, added_by = 1,
             b_created_at = 300, b_updated_at = 500\<rparr>, dune]\<rparr>
   \<and> isl (insert_book (Some 1) 12 500 ''Beowulf'' ''Anon'' ''Grendel'' ''Poetry'' 4294967296 1 library)"
  using published_year_unchecked [where new_id = 12 and d = library and u = 1
      and st = beowulf_form and cy = 2025 and now = 500 and t = "''Beowulf''" and a = "''Anon''"
      and de = "''Grendel''" and g = "''Poetry''" and y = 4294967296]
    published_year_unchecked [where new_id = 12 and d = library and u = 1
      and st = "beowulf_form\<lparr>form_id := Some 10\<rparr>" and now = 500 and B = hobbit]
  by (simp add: library_def ada_def bob_def hobbit_def dune_def beowulf_form_def
      published_year_input_valid_def pg_integer_def apply_formData_def)

subsection \<open>The text filter\<close>

lemma like_match_percent:
  "like_match (CHR ''%'' # p) s = (\<exists>s1 s2. s = s1 @ s2 \<and> like_match p s2)"
proof (induction s)
  case Nil
  then show ?case by simp
next
  case (Cons x s)
  have "like_match (CHR ''%'' # p) (x # s)
          = (like_match p (x # s) \<or> like_match (CHR ''%'' # p) s)"
    by simp
  also have "\<dots> = (like_match p (x # s) \<or> (\<exists>s1 s2. s = s1 @ s2 \<and> like_match p s2))"
    using Cons.IH by simp
  also have "\<dots> = (\<exists>s1 s2. x # s = s1 @ s2 \<and> like_match p s2)"
    by (auto simp: append_eq_Cons_conv Cons_eq_append_conv) 
  finally show ?case .
qed

lemma like_match_plain_prefix:
  assumes "\<forall>c \<in> set p. plain_char c"
  shows "like_match (p @ [CHR ''%'']) s = prefix p s"
  using assms
proof (induction p arbitrary: s)
  case Nil
  have "like_match [CHR ''%''] s" by (induction s) auto
  then show ?case by simp
next
  case (Cons c p)
  then show ?case
    by (cases s) (auto simp: plain_char_def)
qed

lemma like_match_plain_sublist:
  assumes "\<forall>c \<in> set p. plain_char c"
  shows "like_match (CHR ''%'' # p @ [CHR ''%'']) s = sublist p s"
  unfolding like_match_percent like_match_plain_prefix [OF assms]
  by (auto simp: sublist_def prefix_def) 

lemma plain_lower_char: "plain_char (lower_char c) = plain_char c"
proof (cases "65 \<le> (of_char c :: nat) \<and> (of_char c :: nat) \<le> 90")
  case False
  then show ?thesis by (auto simp: lower_char_def Let_def)
next
  case True
  let ?l = "char_of (of_char c + 32 :: nat) :: char"
  have v: "(of_char ?l :: nat) = of_char c + 32"
    using True by simp
  have "?l = d \<Longrightarrow> (of_char d :: nat) = of_char c + 32" for d
    using v by auto
  from this [of "CHR ''%''"] this [of "CHR ''_''"] this [of "CHR 0x5C"] this [of "CHR ''*''"]
    this [of "CHR '',''"] this [of "CHR ''(''"] this [of "CHR '')''"] this [of "CHR 0x22"] True
  have "plain_char ?l"
    unfolding plain_char_def by auto
  moreover have "plain_char c"
    unfolding plain_char_def using True by auto
  ultimately show ?thesis
    using True by (simp add: lower_char_def Let_def)
qed


lemma lower_percent: "lower (CHR ''%'' # q @ [CHR ''%'']) = CHR ''%'' # lower q @ [CHR ''%'']"
  by (simp add: lower_def lower_char_def)

text \<open>
  For ASCII texts and a query text of plain characters only, the filter selects exactly
  the books whose title or author, folded to lower case, contains the folded query as a
  contiguous substring.
\<close>

theorem search_plain_is_substring:
  assumes "\<forall>c \<in> set q. plain_char c"
    and "ascii q" and "ascii (title b)" and "ascii (author b)"
  shows "search_filter q b
           = (sublist (lower q) (lower (title b)) \<or> sublist (lower q) (lower (author b)))"
proof -
  have p: "\<forall>c \<in> set (lower q). plain_char c"
    using assms(1) by (simp add: lower_def plain_lower_char)
  show ?thesis
    unfolding search_filter_def ilike_def lower_percent like_match_plain_sublist [OF p]
    by (rule refl)
qed

theorem search_plain_is_substring_witness:
  "search_filter ''tolk'' hobbit \<and> sublist ''tolk'' (lower (author hobbit))
   \<and> \<not> search_filter ''tolk'' dune"
proof -
  have p: "\<forall>c \<in> set ''tolk''. plain_char c"
    by (simp add: plain_char_def)
  have a: "ascii ''tolk''" "ascii (title hobbit)" "ascii (author hobbit)"
    "ascii (title dune)" "ascii (author dune)"
    by code_simp+
  have h: "sublist ''tolk'' (lower (author hobbit))"
    by code_simp
  have l: "lower ''tolk'' = ''tolk''"
    by code_simp
  have d: "\<not> (sublist ''tolk'' (lower (title dune)) \<or> sublist ''tolk'' (lower (author dune)))"
    by code_simp
  from search_plain_is_substring [OF p a(1) a(2) a(3)] h l
  have "search_filter ''tolk'' hobbit" by simp
  moreover from search_plain_is_substring [OF p a(1) a(4) a(5)] d l
  have "\<not> search_filter ''tolk'' dune" by simp
  ultimately show ?thesis using h by simp
qed

text \<open>
  C6 at particular queries. \<^verbatim>\<open>tolk\<close> selects the Hobbit (by its author) and not Dune. But the
  query text is put into the pattern unescaped: \<^verbatim>\<open>_\<close> and \<^verbatim>\<open>%\<close> select both books, though
  no title or author contains either character, and \<^verbatim>\<open>d_n\<close> selects Dune. (The two books
  have one creation time: the listing has them in the order of the plan, here as the
  table holds them, and the rows the filter lets through are the same under every plan.)
\<close>

theorem search_wildcards_match:
  "books_query heap_order library (first_page\<lparr>searchQuery := ''tolk''\<rparr>) = [hobbit]
   \<and> books_query heap_order library (first_page\<lparr>searchQuery := ''_''\<rparr>) = [hobbit, dune]
   \<and> books_query heap_order library (first_page\<lparr>searchQuery := ''%''\<rparr>) = [hobbit, dune]
   \<and> books_query heap_order library (first_page\<lparr>searchQuery := ''d_n''\<rparr>) = [dune]
   \<and> filtered_books library (first_page\<lparr>searchQuery := ''_''\<rparr>) = [hobbit, dune]
   \<and> filtered_books library (first_page\<lparr>searchQuery := ''%''\<rparr>) = [hobbit, dune]
   \<and> filtered_books library (first_page\<lparr>searchQuery := ''d_n''\<rparr>) = [dune]
   \<and> CHR ''_'' \<notin> set (title hobbit @ author hobbit @ title dune @ author dune)
   \<and> CHR ''%'' \<notin> set (title hobbit @ author hobbit @ title dune @ author dune)
   \<and> ascii (title hobbit @ author hobbit @ title dune @ author dune)"
  by code_simp

subsection \<open>The average rating\<close>

lemma bitlen_powi:
  assumes "0 < k"
  shows "2 powi (bitlen k - 1) \<le> (of_int k :: rat)" and "(of_int k :: rat) < 2 powi (bitlen k)"
proof -
  from bitlen_bounds [OF assms]
  have lo: "2 ^ nat (bitlen k - 1) \<le> k" and hi: "k < 2 ^ nat (bitlen k)" by auto
  have pos: "1 \<le> bitlen k" using assms by (auto simp: bitlen_alt_def)
  have "(of_int (2 ^ nat (bitlen k - 1)) :: rat) \<le> of_int k"
    using lo by (simp only: of_int_le_iff)
  then show "2 powi (bitlen k - 1) \<le> (of_int k :: rat)"
    using pos by (simp add: power_int_def)
  have "(of_int k :: rat) < of_int (2 ^ nat (bitlen k))"
    using hi by (simp only: of_int_less_iff)
  then show "(of_int k :: rat) < 2 powi (bitlen k)"
    using pos by (simp add: power_int_def)
qed

lemma exponent_bounds:
  assumes "x \<noteq> 0"
  shows "2 powi exponent x \<le> \<bar>x\<bar>" and "\<bar>x\<bar> < 2 powi (exponent x + 1)"
proof -
  obtain a b where q: "quotient_of \<bar>x\<bar> = (a, b)" by (cases "quotient_of \<bar>x\<bar>")
  have b: "0 < b" using q by (rule quotient_of_denom_pos)
  have x: "\<bar>x\<bar> = of_int a / of_int b" using q by (rule quotient_of_div)
  have a: "0 < a"
  proof -
    have "0 < \<bar>x\<bar>" using assms by simp
    then have "0 < (of_int a :: rat) / of_int b" using x by simp
    with b show ?thesis by (simp add: zero_less_divide_iff)
  qed
  let ?e0 = "bitlen a - bitlen b"
  note A = bitlen_powi [OF a] and B = bitlen_powi [OF b]
  have bp: "0 < (of_int b :: rat)" using b by simp
  have up: "\<bar>x\<bar> < 2 powi (?e0 + 1)"
  proof -
    have "of_int a / of_int b < 2 powi (bitlen a) / (of_int b :: rat)"
      using A(2) bp by (simp add: divide_strict_right_mono)
    also have "\<dots> \<le> 2 powi (bitlen a) / 2 powi (bitlen b - 1)"
      using B(1) bp by (intro divide_left_mono) (auto intro!: mult_pos_pos)
    also have "\<dots> = 2 powi (?e0 + 1)"
      by (simp add: power_int_diff power_int_add)
    finally show ?thesis using x by simp
  qed
  have lo: "2 powi (?e0 - 1) \<le> \<bar>x\<bar>"
  proof -
    have "2 powi (?e0 - 1) = 2 powi (bitlen a - 1) / (2 powi (bitlen b) :: rat)"
      by (simp add: power_int_diff)
    also have "\<dots> \<le> of_int a / 2 powi (bitlen b)"
      using A(1) by (simp add: divide_right_mono)
    also have "\<dots> \<le> of_int a / of_int b"
      using B(2) a bp by (intro divide_left_mono) (auto intro!: mult_pos_pos)
    finally show ?thesis using x by simp
  qed
  have e: "exponent x = (if \<bar>x\<bar> < 2 powi ?e0 then ?e0 - 1 else ?e0)"
    by (simp add: exponent_def q Let_def)
  show "2 powi exponent x \<le> \<bar>x\<bar>"
    using lo by (auto simp: e)
  show "\<bar>x\<bar> < 2 powi (exponent x + 1)"
    using up by (auto simp: e)
qed

lemma round_half_even_error: "\<bar>of_int (round_half_even y) - y\<bar> \<le> 1 / 2"
proof -
  have "of_int \<lfloor>y\<rfloor> \<le> y" "y < of_int \<lfloor>y\<rfloor> + 1" by linarith+
  then show ?thesis
    by (auto simp: round_half_even_def Let_def abs_le_iff)
qed

lemma round_half_even_int: "round_half_even (of_int k) = k"
  by (simp add: round_half_even_def)


lemma abs_scale:
  assumes "0 < (u::rat)"
  shows "\<bar>r * u - x\<bar> = \<bar>r - x / u\<bar> * u"
proof -
  have "r * u - x = (r - x / u) * u"
    using assms by (simp add: field_simps)
  then show ?thesis
    using assms by (simp add: abs_mult)
qed

lemma round_double_error:
  assumes "x \<noteq> 0"
  shows "\<bar>round_double x - x\<bar> \<le> 2 powi (exponent x - 53)"
    and "\<bar>round_double x - x\<bar> \<le> \<bar>x\<bar> / 2 ^ 53"
proof -
  let ?u = "(2::rat) powi (exponent x - 52)"
  have u: "0 < ?u" by simp
  have "\<bar>round_double x - x\<bar> = \<bar>of_int (round_half_even (x / ?u)) - x / ?u\<bar> * ?u"
    using assms abs_scale [OF u] by (simp add: round_double_def Let_def)
  also have "\<dots> \<le> 1 / 2 * ?u"
    using round_half_even_error [of "x / ?u"] u by (intro mult_right_mono) auto
  also have "\<dots> = 2 powi (exponent x - 53)"
    by (simp add: power_int_diff)
  finally show 1: "\<bar>round_double x - x\<bar> \<le> 2 powi (exponent x - 53)" .
  have "(2::rat) powi (exponent x - 53) = 2 powi exponent x / 2 ^ 53"
    by (simp add: power_int_diff)
  also have "\<dots> \<le> \<bar>x\<bar> / 2 ^ 53"
    using exponent_bounds(1) [OF assms] by (simp add: divide_right_mono)
  finally show "\<bar>round_double x - x\<bar> \<le> \<bar>x\<bar> / 2 ^ 53"
    using 1 by linarith
qed

lemma round_double_exact:
  assumes "x / 2 powi (exponent x - 52) = of_int k"
  shows "round_double x = x"
proof (cases "x = 0")
  case True
  then show ?thesis by (simp add: round_double_def)
next
  case False
  let ?u = "(2::rat) powi (exponent x - 52)"
  have u: "?u \<noteq> 0" by simp
  from assms have "x = of_int k * ?u" using u by (simp add: field_simps)
  with False assms show ?thesis
    by (simp add: round_double_def Let_def round_half_even_int)
qed

lemma exponent_le:
  assumes "x \<noteq> 0" and "\<bar>x\<bar> < 2 powi n"
  shows "exponent x < n"
proof (rule ccontr)
  assume "\<not> exponent x < n"
  then have "n \<le> exponent x" by simp
  then have "(2::rat) powi n \<le> 2 powi exponent x"
    by (intro power_int_increasing) auto
  with exponent_bounds(1) [OF assms(1)] assms(2) show False by linarith
qed

lemma exponent_ge:
  assumes "x \<noteq> 0" and "2 powi n \<le> \<bar>x\<bar>"
  shows "n \<le> exponent x"
proof (rule ccontr)
  assume "\<not> n \<le> exponent x"
  then have "exponent x + 1 \<le> n" by simp
  then have "(2::rat) powi (exponent x + 1) \<le> 2 powi n"
    by (intro power_int_increasing) auto
  with exponent_bounds(2) [OF assms(1)] assms(2) show False by linarith
qed

lemma round_double_of_int:
  assumes "\<bar>k\<bar> \<le> 2 ^ 53"
  shows "round_double (of_int k) = of_int k"
proof (cases "\<bar>k\<bar> = 2 ^ 53")
  case True
  then have "k = 2 ^ 53 \<or> k = - (2 ^ 53)" by linarith
  then show ?thesis by (elim disjE) (simp_all, code_simp+)
next
  case False
  show ?thesis
  proof (cases "k = 0")
    case True
    then show ?thesis by (simp add: round_double_def)
  next
    case nz: False
    let ?x = "of_int k :: rat"
    have "\<bar>?x\<bar> < 2 powi 53"
    proof -
      have "\<bar>k\<bar> < 2 ^ 53" using assms False by linarith
      then have "(of_int \<bar>k\<bar> :: rat) < of_int (2 ^ 53)" by (simp only: of_int_less_iff)
      then show ?thesis by simp
    qed
    with nz have e: "exponent ?x < 53" by (intro exponent_le) auto
    define n where "n = nat (52 - exponent ?x)"
    have "(2::rat) powi (exponent ?x - 52) = 1 / 2 ^ n"
      using e by (simp add: n_def power_int_def field_simps)
    then have "?x / 2 powi (exponent ?x - 52) = of_int (k * 2 ^ n)"
      by simp
    then show ?thesis by (rule round_double_exact)
  qed
qed


lemma sum_exact:
  assumes "\<forall>r \<in> set rs. 1 \<le> rating r \<and> rating r \<le> 5"
    and "0 \<le> a" and "a + 5 * int (length rs) \<le> 2 ^ 53"
  shows "foldl (\<lambda>sum r. js_add sum (js_number (rating r))) (of_int a) rs
           = of_int (a + sum_list (map rating rs))"
  using assms
proof (induction rs arbitrary: a)
  case Nil
  then show ?case by simp
next
  case (Cons r rs)
  have r: "1 \<le> rating r" "rating r \<le> 5" using Cons.prems(1) by auto
  have n: "js_number (rating r) = of_int (rating r)"
    unfolding js_number_def using r by (intro round_double_of_int) auto
  have "js_add (of_int a) (of_int (rating r)) = round_double (of_int (a + rating r))"
    by (simp add: js_add_def)
  also have "\<dots> = of_int (a + rating r)"
    using r Cons.prems(2,3) by (intro round_double_of_int) auto
  finally have step: "js_add (of_int a) (js_number (rating r)) = of_int (a + rating r)"
    using n by simp
  have "foldl (\<lambda>sum r. js_add sum (js_number (rating r))) (of_int (a + rating r)) rs
          = of_int (a + rating r + sum_list (map rating rs))"
    using Cons.prems r by (intro Cons.IH) auto
  then show ?case
    by (simp add: step add.assoc)
qed

lemma sum_bounds:
  assumes "\<forall>r \<in> set rs. 1 \<le> rating r \<and> rating r \<le> 5"
  shows "int (length rs) \<le> sum_list (map rating rs)"
    and "sum_list (map rating rs) \<le> 5 * int (length rs)"
  using assms by (induction rs) auto

lemma averageRating_round:
  assumes ok: "\<forall>r \<in> set rs. 1 \<le> rating r \<and> rating r \<le> 5"
    and ne: "rs \<noteq> []" and len: "length rs < 2 ^ 32"
  shows "averageRating rs = round_double (mean_rating rs)"
proof -
  have "5 * int (length rs) \<le> 5 * 2 ^ 32" using len by simp
  then have b: "0 + 5 * int (length rs) \<le> 2 ^ 53" by simp
  have s: "foldl (\<lambda>sum r. js_add sum (js_number (rating r))) 0 rs
             = of_int (sum_list (map rating rs))"
    using sum_exact [OF ok _ b] by simp
  have l: "js_number (int (length rs)) = of_nat (length rs)"
    unfolding js_number_def using len by (subst round_double_of_int) auto
  show ?thesis
    using ne by (simp add: averageRating_def s l js_div_def mean_rating_def)
qed

lemma mean_bounds:
  assumes ok: "\<forall>r \<in> set rs. 1 \<le> rating r \<and> rating r \<le> 5" and ne: "rs \<noteq> []"
  shows "1 \<le> mean_rating rs" and "mean_rating rs \<le> 5"
proof -
  have n: "0 < (of_nat (length rs) :: rat)" using ne by simp
  have "(of_int (int (length rs)) :: rat) \<le> of_int (sum_list (map rating rs))"
    using sum_bounds(1) [OF ok] by (simp only: of_int_le_iff)
  then show "1 \<le> mean_rating rs"
    using n by (simp add: mean_rating_def le_divide_eq)
  have "(of_int (sum_list (map rating rs)) :: rat) \<le> of_int (5 * int (length rs))"
    using sum_bounds(2) [OF ok] by (simp only: of_int_le_iff)
  then show "mean_rating rs \<le> 5"
    using n by (simp add: mean_rating_def divide_le_eq)
qed


lemma averageRating_error:
  assumes ok: "\<forall>r \<in> set rs. 1 \<le> rating r \<and> rating r \<le> 5"
    and ne: "rs \<noteq> []" and len: "length rs < 2 ^ 32"
  shows "\<bar>averageRating rs - mean_rating rs\<bar> \<le> mean_rating rs / 2 ^ 53"
proof -
  have m: "1 \<le> mean_rating rs" by (rule mean_bounds(1) [OF ok ne])
  then have "mean_rating rs \<noteq> 0" by auto
  from round_double_error(2) [OF this] m show ?thesis
    unfolding averageRating_round [OF ok ne len] by simp
qed

lemma round_double_exact_1_8:
  assumes lo: "1 \<le> x" and hi: "x < 8" and rep: "x * 2 ^ 50 = of_int k"
  shows "round_double x = x"
proof -
  have nz: "x \<noteq> 0" using lo by auto
  have "(2::rat) powi 0 \<le> \<bar>x\<bar>" using lo by simp
  then have e0: "0 \<le> exponent x" by (rule exponent_ge [OF nz])
  have "\<bar>x\<bar> < 2 powi 3" using lo hi by simp
  then have e3: "exponent x < 3" by (rule exponent_le [OF nz])
  define j where "j = nat (2 - exponent x)"
  have "(2::rat) powi (exponent x - 52) = 1 / (2 ^ 50 * 2 ^ j)"
  proof -
    have "exponent x - 52 = - int (50 + j)" using e0 e3 by (simp add: j_def)
    then have "(2::rat) powi (exponent x - 52) = 2 powi (- int (50 + j))" by simp
    also have "\<dots> = 1 / 2 ^ (50 + j)"
      by (simp only: power_int_minus power_int_of_nat inverse_eq_divide)
    finally show ?thesis by (simp add: power_add)
  qed
  then have "x / 2 powi (exponent x - 52) = (x * 2 ^ 50) * 2 ^ j"
    by simp
  also have "\<dots> = of_int (k * 2 ^ j)"
    using rep by simp
  finally show ?thesis by (rule round_double_exact)
qed

lemma gap_above:
  assumes N: "0 < N" and gt: "of_int h / 2 < (of_int S / of_int N :: rat)"
  shows "1 / (2 * of_int N) \<le> (of_int S / of_int N :: rat) - of_int h / 2"
proof -
  have Np: "0 < (of_int N :: rat)" using N by simp
  from gt Np have "(of_int h :: rat) * of_int N < 2 * of_int S"
    by (simp add: field_simps)
  then have "(of_int (h * N) :: rat) < of_int (2 * S)" by simp
  then have "h * N < 2 * S" by (simp only: of_int_less_iff)
  then have "h * N + 1 \<le> 2 * S" by simp
  then have "(of_int (h * N + 1) :: rat) \<le> of_int (2 * S)" by (simp only: of_int_le_iff)
  then have "(of_int h :: rat) * of_int N + 1 \<le> 2 * of_int S" by simp
  with Np show ?thesis by (simp add: field_simps)
qed

lemma gap_below:
  assumes N: "0 < N" and lt: "(of_int S / of_int N :: rat) < of_int h / 2"
  shows "1 / (2 * of_int N) \<le> of_int h / 2 - (of_int S / of_int N :: rat)"
proof -
  have Np: "0 < (of_int N :: rat)" using N by simp
  from lt Np have "2 * of_int S < (of_int h :: rat) * of_int N"
    by (simp add: field_simps)
  then have "(of_int (2 * S) :: rat) < of_int (h * N)" by simp
  then have "2 * S < h * N" by (simp only: of_int_less_iff)
  then have "2 * S + 1 \<le> h * N" by simp
  then have "(of_int (2 * S + 1) :: rat) \<le> of_int (h * N)" by (simp only: of_int_le_iff)
  then have "2 * of_int S + 1 \<le> (of_int h :: rat) * of_int N" by simp
  with Np show ?thesis by (simp add: field_simps)
qed


lemma averageRating_Math_round:
  assumes ok: "\<forall>r \<in> set rs. 1 \<le> rating r \<and> rating r \<le> 5"
    and ne: "rs \<noteq> []" and len: "length rs < 2 ^ 32"
  shows "Math_round (averageRating rs) = \<lfloor>mean_rating rs + 1 / 2\<rfloor>"
proof -
  define S where "S = sum_list (map rating rs)"
  define N where "N = int (length rs)"
  define m where "m = mean_rating rs"
  define k where "k = \<lfloor>m + 1 / 2\<rfloor>"
  define avg where "avg = averageRating rs"
  define g where "g = 1 / (2 * (of_int N :: rat))"
  define eps where "eps = (5 :: rat) / 2 ^ 53"
  define lo where "lo = (of_int (2 * k - 1) :: rat) / 2"
  define hi where "hi = (of_int (2 * k + 1) :: rat) / 2"
  have N: "0 < N" "N < 2 ^ 32" using ne len by (simp_all add: N_def)
  have m: "m = of_int S / of_int N"
    by (simp add: m_def mean_rating_def S_def N_def)
  have m1: "1 \<le> m" and m5: "m \<le> 5"
    using mean_bounds [OF ok ne] by (simp_all add: m_def)
  have "of_int k \<le> m + 1 / 2" and "m + 1 / 2 < of_int k + 1"
    unfolding k_def by linarith+
  then have k1: "lo \<le> m" and k2: "m < hi"
    by (simp_all add: lo_def hi_def)
  have "\<bar>avg - m\<bar> \<le> m / 2 ^ 53"
    using averageRating_error [OF ok ne len] by (simp add: avg_def m_def)
  also have "\<dots> \<le> eps" using m5 by (simp add: eps_def divide_right_mono)
  finally have "\<bar>avg - m\<bar> \<le> eps" .
  then have err: "m - eps \<le> avg" "avg \<le> m + eps"
    by (simp_all add: abs_le_iff) 
  have "(of_int N :: rat) < of_int (2 ^ 32)" using N(2) by (simp only: of_int_less_iff)
  then have Nr: "(of_int N :: rat) < 2 ^ 32" by simp
  have Np: "0 < (of_int N :: rat)" using N(1) by simp
  have "1 / (2 * 2 ^ 32) < 1 / (2 * (of_int N :: rat))"
    using Nr Np by (intro divide_strict_left_mono) (auto intro!: mult_pos_pos)
  moreover have "eps < 1 / (2 * 2 ^ 32)" by (simp add: eps_def)
  ultimately have gap: "eps < g" by (simp add: g_def)
  have lower: "lo \<le> avg"
  proof (cases "m = lo")
    case True
    then have rep: "m * 2 ^ 50 = of_int ((2 * k - 1) * 2 ^ 49)" by (simp add: lo_def)
    have "m < 8" using m5 by simp
    with m1 have "round_double m = m"
      using rep by (rule round_double_exact_1_8)
    then have "avg = m"
      using averageRating_round [OF ok ne len] by (simp add: avg_def m_def)
    with True show ?thesis by simp
  next
    case False
    with k1 have "of_int (2 * k - 1) / 2 < (of_int S / of_int N :: rat)"
      by (simp add: lo_def m)
    from gap_above [OF N(1) this] have "g \<le> m - lo"
      by (simp add: g_def lo_def m)
    with gap err show ?thesis by linarith
  qed
  have upper: "avg < hi"
  proof -
    from k2 have "(of_int S / of_int N :: rat) < of_int (2 * k + 1) / 2"
      by (simp add: hi_def m)
    from gap_below [OF N(1) this] have "g \<le> hi - m"
      by (simp add: g_def hi_def m)
    with gap err show ?thesis by linarith
  qed
  from lower upper have "of_int k \<le> avg + 1 / 2" and "avg + 1 / 2 < of_int k + 1"
    by (simp_all add: lo_def hi_def)
  then have "\<lfloor>avg + 1 / 2\<rfloor> = k" by (intro floor_unique) auto
  then show ?thesis
    by (simp add: Math_round_def avg_def k_def m_def)
qed

lemma stars_Math_round:
  assumes "0 \<le> Math_round x" and "Math_round x \<le> 5"
  shows "stars x = nat (Math_round x)"
proof -
  from assms have "Math_round x \<in> {0, 1, 2, 3, 4, 5}" by auto
  then show ?thesis by (auto simp: stars_def)
qed

lemma Math_round_nearest: "\<bar>of_int (Math_round x) - x\<bar> \<le> 1 / 2"
proof -
  have "of_int \<lfloor>x + 1 / 2\<rfloor> \<le> x + 1 / 2" and "x + 1 / 2 < of_int \<lfloor>x + 1 / 2\<rfloor> + 1"
    by linarith+
  then show ?thesis
    unfolding Math_round_def abs_le_iff by (intro conjI) linarith+
qed

lemma toFixed_1_nearest: "\<bar>of_int (toFixed_1 x) / 10 - x\<bar> \<le> 1 / 20"
proof (cases "x < 0")
  case True
  have "of_int \<lfloor>10 * (- x) + 1 / 2\<rfloor> \<le> 10 * (- x) + 1 / 2"
    and "10 * (- x) + 1 / 2 < of_int \<lfloor>10 * (- x) + 1 / 2\<rfloor> + 1"
    by linarith+
  then show ?thesis
    using True unfolding toFixed_1_def abs_le_iff by (simp only: if_True of_int_minus) linarith
next
  case False
  have "of_int \<lfloor>10 * x + 1 / 2\<rfloor> \<le> 10 * x + 1 / 2"
    and "10 * x + 1 / 2 < of_int \<lfloor>10 * x + 1 / 2\<rfloor> + 1"
    by linarith+
  then show ?thesis
    using False unfolding toFixed_1_def abs_le_iff by (simp only: if_False) linarith
qed


text \<open>
  C4, as the code has it. With no reviews the average is 0; for the ratings 5, 3, 4 it is 4.
  For the reviews of a book (at least one, fewer than \<open>2 ^ 32\<close>, each rating from 1 to 5)
  the sum is exact and the average is the mean rounded to the nearest double: within the
  relative error \<open>1 / 2 ^ 53\<close> of the mean, and equal to it where the mean is a double
  (a multiple of \<open>1 / 2 ^ 50\<close>). The filled stars are the mean rounded to the nearest
  integer, a half going up; the text shows the tenth nearest to the average.
\<close>

theorem average_rating_double:
  "averageRating [] = 0
   \<and> (map rating rs = [5, 3, 4] \<longrightarrow> averageRating rs = 4)
   \<and> (rs \<noteq> [] \<and> (\<forall>r \<in> set rs. 1 \<le> rating r \<and> rating r \<le> 5) \<and> length rs < 2 ^ 32 \<longrightarrow>
        averageRating rs = round_double (mean_rating rs)
        \<and> \<bar>averageRating rs - mean_rating rs\<bar> \<le> mean_rating rs / 2 ^ 53
        \<and> ((\<exists>k. mean_rating rs * 2 ^ 50 = of_int k) \<longrightarrow> averageRating rs = mean_rating rs)
        \<and> Math_round (averageRating rs) = \<lfloor>mean_rating rs + 1 / 2\<rfloor>
        \<and> stars (averageRating rs) = nat \<lfloor>mean_rating rs + 1 / 2\<rfloor>
        \<and> \<bar>of_int (toFixed_1 (averageRating rs)) / 10 - averageRating rs\<bar> \<le> 1 / 20)"
proof (intro conjI impI)
  show "averageRating [] = 0" by (simp add: averageRating_def)
next
  assume a: "map rating rs = [5, 3, 4]"
  then have ok: "\<forall>r \<in> set rs. 1 \<le> rating r \<and> rating r \<le> 5"
  proof -
    have "set (map rating rs) = {5, 3, 4}" using a by simp
    then have "\<forall>r \<in> set rs. rating r \<in> {5, 3, 4}" by auto
    then show ?thesis by auto
  qed
  from a have l: "length rs = 3" by (metis length_map length_Cons list.size(3) numeral_3_eq_3)
  then have ne: "rs \<noteq> []" and len: "length rs < 2 ^ 32" by auto
  have "mean_rating rs = 4" by (simp add: mean_rating_def a l)
  moreover have "round_double 4 = 4" by code_simp
  ultimately show "averageRating rs = 4"
    using averageRating_round [OF ok ne len] by simp
next
  assume a: "rs \<noteq> [] \<and> (\<forall>r \<in> set rs. 1 \<le> rating r \<and> rating r \<le> 5) \<and> length rs < 2 ^ 32"
  then have ne: "rs \<noteq> []" and ok: "\<forall>r \<in> set rs. 1 \<le> rating r \<and> rating r \<le> 5"
    and len: "length rs < 2 ^ 32" by auto
  note m = mean_bounds [OF ok ne]
  show r: "averageRating rs = round_double (mean_rating rs)"
    by (rule averageRating_round [OF ok ne len])
  show "\<bar>averageRating rs - mean_rating rs\<bar> \<le> mean_rating rs / 2 ^ 53"
    by (rule averageRating_error [OF ok ne len])
  show mr: "Math_round (averageRating rs) = \<lfloor>mean_rating rs + 1 / 2\<rfloor>"
    by (rule averageRating_Math_round [OF ok ne len])
  have "0 \<le> \<lfloor>mean_rating rs + 1 / 2\<rfloor>" and "\<lfloor>mean_rating rs + 1 / 2\<rfloor> \<le> 5"
    using m by (simp_all add: le_floor_iff floor_le_iff)
  then show "stars (averageRating rs) = nat \<lfloor>mean_rating rs + 1 / 2\<rfloor>"
    using stars_Math_round [of "averageRating rs"] by (simp add: mr)
  show "\<bar>of_int (toFixed_1 (averageRating rs)) / 10 - averageRating rs\<bar> \<le> 1 / 20"
    by (rule toFixed_1_nearest)
  assume "\<exists>k. mean_rating rs * 2 ^ 50 = of_int k"
  then obtain k where "mean_rating rs * 2 ^ 50 = of_int k" ..
  with m have "round_double (mean_rating rs) = mean_rating rs"
    by (intro round_double_exact_1_8) auto
  with r show "averageRating rs = mean_rating rs" by simp
qed

theorem average_rating_double_witness:
  "averageRating [rated 5, rated 3, rated 4] = 4
   \<and> mean_rating [rated 5, rated 3, rated 4] = 4
   \<and> stars (averageRating [rated 5, rated 4]) = 5
   \<and> mean_rating [rated 5, rated 4] = 9 / 2"
proof -
  have "map rating [rated 5, rated 3, rated 4] = [5, 3, 4]"
    by (simp add: rated_def)
  with average_rating_double [of "[rated 5, rated 3, rated 4]"]
  have a: "averageRating [rated 5, rated 3, rated 4] = 4" by blast
  have "[rated 5, rated 4] \<noteq> []
        \<and> (\<forall>r \<in> set [rated 5, rated 4]. 1 \<le> rating r \<and> rating r \<le> 5)
        \<and> length [rated 5, rated 4] < 2 ^ 32"
    by (simp add: rated_def)
  with average_rating_double [of "[rated 5, rated 4]"]
  have "stars (averageRating [rated 5, rated 4]) = nat \<lfloor>mean_rating [rated 5, rated 4] + 1 / 2\<rfloor>"
    by blast
  moreover have m: "mean_rating [rated 5, rated 4] = 9 / 2"
    by (simp add: mean_rating_def rated_def)
  ultimately have s: "stars (averageRating [rated 5, rated 4]) = 5" by simp
  have "mean_rating [rated 5, rated 3, rated 4] = 4"
    by (simp add: mean_rating_def rated_def)
  with a s m show ?thesis by simp
qed

text \<open>The ratings 4, 4, 5 have the mean 13/3, which is no double: the average is the
  double below it. Eleven ratings of 1 and nine of 2 have the mean 1.45; the average is
  the double below it, and the text shows 1.4.\<close>

theorem average_not_exact_mean:
  "mean_rating [rated 4, rated 4, rated 5] = 13 / 3
   \<and> averageRating [rated 4, rated 4, rated 5] = 4878899596318037 / 1125899906842624
   \<and> averageRating [rated 4, rated 4, rated 5] \<noteq> mean_rating [rated 4, rated 4, rated 5]
   \<and> mean_rating (replicate 11 (rated 1) @ replicate 9 (rated 2)) = 29 / 20
   \<and> toFixed_1 (averageRating (replicate 11 (rated 1) @ replicate 9 (rated 2))) = 14"
  by code_simp

end
